theory Spec2Isabelle
  imports Main "HOL-Library.Word"
begin

section \<open>Go strings\<close>

text \<open>
  A Go string is a sequence of bytes, which is what \<^typ>\<open>string\<close> is. The functions of
  the packages \<^verbatim>\<open>strings\<close> and \<^verbatim>\<open>strconv\<close> that the repository calls are written out
  here, each under its Go name prefixed by its package.
\<close>

definition asciiSpace :: "char \<Rightarrow> bool" where
  "asciiSpace c = (c = CHR 0x09 \<or> c = CHR 0x0A \<or> c = CHR 0x0B \<or> c = CHR 0x0C \<or> c = CHR 0x0D \<or> c = CHR 0x20)"

text \<open>
  \<^verbatim>\<open>unicode.IsSpace\<close> beyond ASCII: U+0085, U+00A0, U+1680, U+2000 to U+200A, U+2028,
  U+2029, U+202F, U+205F and U+3000, here in their UTF-8 encodings. \<open>space_len s\<close> is the
  number of bytes of the white space rune at the head of \<open>s\<close>, and 0 when \<open>s\<close> does not
  start with one.
\<close>

fun space_len :: "string \<Rightarrow> nat" where
  "space_len [] = 0"
| "space_len [a] = (if asciiSpace a then 1 else 0)"
| "space_len [a, b] =
     (if asciiSpace a then 1
      else if a = CHR 0xC2 \<and> (b = CHR 0x85 \<or> b = CHR 0xA0) then 2 else 0)"
| "space_len (a # b # c # _) =
     (if asciiSpace a then 1
      else if a = CHR 0xC2 \<and> (b = CHR 0x85 \<or> b = CHR 0xA0) then 2
      else if a = CHR 0xE1 \<and> b = CHR 0x9A \<and> c = CHR 0x80 then 3
      else if a = CHR 0xE2 \<and> b = CHR 0x80 \<and>
              ((128::int) \<le> of_char c \<and> (of_char c :: int) \<le> 138 \<or> c = CHR 0xA8 \<or> c = CHR 0xA9 \<or> c = CHR 0xAF)
        then 3
      else if a = CHR 0xE2 \<and> b = CHR 0x81 \<and> c = CHR 0x9F then 3
      else if a = CHR 0xE3 \<and> b = CHR 0x80 \<and> c = CHR 0x80 then 3
      else 0)"

text \<open>
  \<^verbatim>\<open>strings.TrimSpace\<close> removes the white space runes at both ends. From the left it
  drops runes while the head is white space; from the right it drops the longest suffix
  made of white space runes (Go decodes the last rune again and again; the encodings above
  are never a suffix of one another, so both give the same slice).
\<close>

fun trim_left_space :: "string \<Rightarrow> string" where
  "trim_left_space [] = []"
| "trim_left_space (a # s) =
     (if space_len (a # s) = 0 then a # s
      else trim_left_space (drop (space_len (a # s) - 1) s))"

fun trim_right_space :: "string \<Rightarrow> string" where
  "trim_right_space [] = []"
| "trim_right_space (a # s) =
     (if trim_left_space (a # s) = [] then [] else a # trim_right_space s)"

definition strings_TrimSpace :: "string \<Rightarrow> string" where
  "strings_TrimSpace s = trim_right_space (trim_left_space s)"

text \<open>\<^verbatim>\<open>strings.Split(s, sep)\<close> for a separator of one byte: one more piece than separators.\<close>

fun strings_Split :: "string \<Rightarrow> char \<Rightarrow> string list" where
  "strings_Split [] sep = [[]]"
| "strings_Split (x # xs) sep =
     (if x = sep then [] # strings_Split xs sep
      else (case strings_Split xs sep of
              [] \<Rightarrow> [[x]]
            | l # ls \<Rightarrow> (x # l) # ls))"

definition strings_HasPrefix :: "string \<Rightarrow> string \<Rightarrow> bool" where
  "strings_HasPrefix s p = (take (length p) s = p)"

definition strings_TrimPrefix :: "string \<Rightarrow> string \<Rightarrow> string" where
  "strings_TrimPrefix s p = (if strings_HasPrefix s p then drop (length p) s else s)"

definition strings_HasSuffix :: "string \<Rightarrow> string \<Rightarrow> bool" where
  "strings_HasSuffix s p = (length p \<le> length s \<and> drop (length s - length p) s = p)"

definition strings_TrimSuffix :: "string \<Rightarrow> string \<Rightarrow> string" where
  "strings_TrimSuffix s p = (if strings_HasSuffix s p then take (length s - length p) s else s)"

text \<open>
  \<^verbatim>\<open>strings.ToUpper\<close> and \<^verbatim>\<open>strings.ToLower\<close> on the ASCII letters. Go maps the letters
  beyond ASCII as well, by the Unicode tables, and replaces bytes that are not valid UTF-8;
  every claim settled below that depends on a case mapping is settled on ASCII text.
\<close>

definition upper_char :: "char \<Rightarrow> char" where
  "upper_char c =
     (if (97::int) \<le> of_char c \<and> (of_char c :: int) \<le> 122 then char_of (of_char c - (32::int)) else c)"

definition lower_char :: "char \<Rightarrow> char" where
  "lower_char c =
     (if (65::int) \<le> of_char c \<and> (of_char c :: int) \<le> 90 then char_of (of_char c + (32::int)) else c)"

definition strings_ToUpper :: "string \<Rightarrow> string" where
  "strings_ToUpper s = map upper_char s"

definition strings_ToLower :: "string \<Rightarrow> string" where
  "strings_ToLower s = map lower_char s"

subsection \<open>strconv.ParseInt(s, 10, 64)\<close>

datatype num_error = ErrSyntax | ErrRange

definition is_digit :: "char \<Rightarrow> bool" where
  "is_digit c = ((48::int) \<le> of_char c \<and> (of_char c :: int) \<le> 57)"

definition digit_val :: "char \<Rightarrow> int" where
  "digit_val c = of_char c - 48"

definition maxUint64 :: int where
  "maxUint64 = 2 ^ 64 - 1"

text \<open>The loop of \<^verbatim>\<open>ParseUint\<close> in base 10: it stops at the first byte that is not a digit
  and at the first digit that takes the value beyond 64 bits. The accumulator is a
  \<^verbatim>\<open>uint64\<close>; the two range tests keep it below \<open>2 ^ 64\<close>, so it never wraps.\<close>

fun ParseUint_loop :: "int \<Rightarrow> string \<Rightarrow> num_error + int" where
  "ParseUint_loop n [] = Inr n"
| "ParseUint_loop n (c # cs) =
     (if \<not> is_digit c then Inl ErrSyntax
      else if n \<ge> maxUint64 div 10 + 1 then Inl ErrRange
      else if n * 10 + digit_val c > maxUint64 then Inl ErrRange
      else ParseUint_loop (n * 10 + digit_val c) cs)"

definition strconv_ParseUint :: "string \<Rightarrow> num_error + int" where
  "strconv_ParseUint s = (if s = [] then Inl ErrSyntax else ParseUint_loop 0 s)"

definition strconv_ParseInt :: "string \<Rightarrow> num_error + int" where
  "strconv_ParseInt s0 =
     (if s0 = [] then Inl ErrSyntax
      else
        let neg = (hd s0 = CHR ''-'');
            s = (if hd s0 = CHR ''+'' \<or> hd s0 = CHR ''-'' then tl s0 else s0)
        in case strconv_ParseUint s of
             Inl e \<Rightarrow> Inl e
           | Inr un \<Rightarrow>
               if \<not> neg \<and> un \<ge> 2 ^ 63 then Inl ErrRange
               else if neg \<and> un > 2 ^ 63 then Inl ErrRange
               else Inr (if neg then - un else un))"

section \<open>The canonical string (qa/requests/canonical.go)\<close>

record ParsedCanonical =
  p_Method :: string
  p_Path :: string
  p_AppID :: string
  p_BackendHost :: string
  p_TS :: int
  p_ChallengeID :: string
  p_UserID :: string
  p_DeviceID :: string
  p_BodySHA256 :: string

datatype canon_error =
    MissingBodySha256
  | InvalidBodySha256Length
  | InvalidBodySha256Hex
  | InvalidAud
  | UnexpectedLineCount nat
  | InvalidAPPLine string
  | InvalidAUDLine string
  | InvalidTSLine string
  | ParseTS num_error
  | InvalidCHALLENGELine string
  | InvalidUSERLine string
  | InvalidDEVICELine string
  | InvalidBODYLine string

text \<open>
  A call either returns (a value or an error) or panics: Go's \<^verbatim>\<open>lines[i]\<close> with
  \<open>i\<close> not below \<^verbatim>\<open>len(lines)\<close> is a run-time panic (index out of range), which
  no caller of the parser recovers.
\<close>

datatype 'a run = Returns 'a | Panics

definition line_at :: "string list \<Rightarrow> nat \<Rightarrow> (string \<Rightarrow> 'a run) \<Rightarrow> 'a run" where
  "line_at lines i k = (if i < length lines then k (lines ! i) else Panics)"

definition labelled ::
  "string list \<Rightarrow> nat \<Rightarrow> string \<Rightarrow> (string \<Rightarrow> canon_error) \<Rightarrow>
   (string \<Rightarrow> (canon_error + 'a) run) \<Rightarrow> (canon_error + 'a) run" where
  "labelled lines i pre mk k =
     line_at lines i (\<lambda>l.
       if \<not> strings_HasPrefix l pre then Returns (Inl (mk l))
       else k (strings_TrimSpace (strings_TrimPrefix l pre)))"

definition ParseCanonicalString :: "string \<Rightarrow> (canon_error + ParsedCanonical) run" where
  "ParseCanonicalString s =
     (let lines = strings_Split (strings_TrimSpace s) CHR 0x0A in
      if length lines \<noteq> 8 then Returns (Inl (UnexpectedLineCount (length lines)))
      else
        line_at lines 0 (\<lambda>l0.
        line_at lines 1 (\<lambda>l1.
        labelled lines 2 ''APP: '' InvalidAPPLine (\<lambda>app.
        labelled lines 3 ''AUD: '' InvalidAUDLine (\<lambda>aud.
        labelled lines 4 ''TS: '' InvalidTSLine (\<lambda>tsStr.
          case strconv_ParseInt tsStr of
            Inl e \<Rightarrow> Returns (Inl (ParseTS e))
          | Inr ts \<Rightarrow>
        labelled lines 5 ''CHALLENGE: '' InvalidCHALLENGELine (\<lambda>ch.
        labelled lines 6 ''USER: '' InvalidUSERLine (\<lambda>usr.
        labelled lines 7 ''DEVICE: '' InvalidDEVICELine (\<lambda>dev.
        labelled lines 8 ''BODY-SHA256: '' InvalidBODYLine (\<lambda>body.
          Returns (Inr \<lparr>p_Method = strings_TrimSpace l0, p_Path = strings_TrimSpace l1,
                         p_AppID = app, p_BackendHost = aud, p_TS = ts,
                         p_ChallengeID = ch, p_UserID = usr, p_DeviceID = dev,
                         p_BodySHA256 = body\<rparr>)))))))))))"

text \<open>
  Two concrete inputs. \<open>nine_lines\<close> is the canonical string of the layout the signer
  writes (method, path and seven labelled lines); \<open>eight_lines\<close> is the same text without
  its last line.
\<close>

definition nine_lines :: string where
  "nine_lines = ''POST\<newline>/api/v1/login?x=1\<newline>APP: app-1\<newline>AUD: example.com\<newline>TS: 1700000000\<newline>CHALLENGE: 3f2b8c1e-5d4a-4e6f-9a7b-1c2d3e4f5a6b\<newline>USER: 7c9e6679-7425-40de-944b-e07fc1f90ae7\<newline>DEVICE: 16fd2706-8baf-433b-82eb-8c7fada847da\<newline>BODY-SHA256: e3b0c44298fc1c149afbf4c8996fb92427ae41e4649b934ca495991b7852b855''"

definition eight_lines :: string where
  "eight_lines = ''POST\<newline>/api/v1/login?x=1\<newline>APP: app-1\<newline>AUD: example.com\<newline>TS: 1700000000\<newline>CHALLENGE: 3f2b8c1e-5d4a-4e6f-9a7b-1c2d3e4f5a6b\<newline>USER: 7c9e6679-7425-40de-944b-e07fc1f90ae7\<newline>DEVICE: 16fd2706-8baf-433b-82eb-8c7fada847da''"

section \<open>Go's net/url and net, as far as NormalizeBackendHost uses them\<close>

text \<open>
  \<^verbatim>\<open>NormalizeBackendHost\<close> hands its input to \<^verbatim>\<open>url.Parse\<close> and reads the host back
  with \<^verbatim>\<open>URL.Hostname\<close> and \<^verbatim>\<open>URL.Port\<close>; its fallback uses \<^verbatim>\<open>net.SplitHostPort\<close>
  and both paths use \<^verbatim>\<open>net.JoinHostPort\<close>. These belong to the Go standard library.
  They are written out below after the library's algorithm, with one part left as a
  parameter: a host that contains a square bracket is an IP literal, which the library
  checks against its IP address parser, and whose treatment changed between releases;
  the parameter \<open>ipl\<close> stands for what the library answers for such a host.
\<close>

subsection \<open>More of package strings\<close>

text \<open>\<^verbatim>\<open>strings.Index(s, sub)\<close>: the index of the first occurrence, \<open>None\<close> for -1.\<close>

fun strings_Index :: "string \<Rightarrow> string \<Rightarrow> nat option" where
  "strings_Index [] sub = (if sub = [] then Some 0 else None)"
| "strings_Index (c # s) sub =
     (if take (length sub) (c # s) = sub then Some 0
      else map_option Suc (strings_Index s sub))"

definition strings_Contains :: "string \<Rightarrow> string \<Rightarrow> bool" where
  "strings_Contains s sub = (strings_Index s sub \<noteq> None)"

text \<open>
  \<^verbatim>\<open>strings.Cut(s, sep)\<close> and the \<^verbatim>\<open>strings.LastIndex\<close> idiom for a separator of one
  byte: the text before and after the first (the last) occurrence, \<open>None\<close> when the byte
  does not occur.
\<close>

definition cut_first :: "char \<Rightarrow> string \<Rightarrow> (string \<times> string) option" where
  "cut_first c s =
     (if c \<in> set s then Some (takeWhile (\<lambda>x. x \<noteq> c) s, tl (dropWhile (\<lambda>x. x \<noteq> c) s)) else None)"

definition cut_last :: "char \<Rightarrow> string \<Rightarrow> (string \<times> string) option" where
  "cut_last c s =
     (if c \<in> set s
      then Some (rev (tl (dropWhile (\<lambda>x. x \<noteq> c) (rev s))), rev (takeWhile (\<lambda>x. x \<noteq> c) (rev s)))
      else None)"

definition strings_Count :: "string \<Rightarrow> char \<Rightarrow> nat" where
  "strings_Count s c = length (filter (\<lambda>x. x = c) s)"

subsection \<open>net/url: escapes\<close>

datatype url_error =
    InvalidControlCharacter
  | MissingProtocolScheme
  | FirstPathSegmentColon
  | MissingBracket
  | InvalidPort string
  | EscapeError string
  | InvalidHostError string
  | InvalidUserinfo
  | InvalidIPLiteral

datatype encoding =
    encodePath
  | encodePathSegment
  | encodeHost
  | encodeZone
  | encodeUserPassword
  | encodeQueryComponent
  | encodeFragment

definition is_alpha :: "char \<Rightarrow> bool" where
  "is_alpha c = ((97::int) \<le> of_char c \<and> (of_char c :: int) \<le> 122 \<or>
                 (65::int) \<le> of_char c \<and> (of_char c :: int) \<le> 90)"

definition ishex :: "char \<Rightarrow> bool" where
  "ishex c = (is_digit c \<or> (97::int) \<le> of_char c \<and> (of_char c :: int) \<le> 102 \<or>
              (65::int) \<le> of_char c \<and> (of_char c :: int) \<le> 70)"

definition unhex :: "char \<Rightarrow> int" where
  "unhex c =
     (if is_digit c then of_char c - 48
      else if (97::int) \<le> of_char c \<and> (of_char c :: int) \<le> 102 then of_char c - 97 + 10
      else if (65::int) \<le> of_char c \<and> (of_char c :: int) \<le> 70 then of_char c - 65 + 10
      else 0)"

text \<open>\<^verbatim>\<open>shouldEscape(c, encodeHost)\<close>: letters, digits and the marks below may stand in a
  host as they are.\<close>

definition shouldEscape_host :: "char \<Rightarrow> bool" where
  "shouldEscape_host c =
     (\<not> (is_alpha c \<or> is_digit c \<or>
         c \<in> set ''!$&()*+,;=:[]<>'' \<or> c = CHR 0x27 \<or> c = CHR 0x22 \<or>
         c \<in> set ''-_.~''))"

text \<open>
  \<^verbatim>\<open>unescape(s, mode)\<close>. The library checks the whole string first and decodes it then;
  the first fault from the left is the error in both readings. In a host only bytes from
  0x80 on may be written as an escape, and \<^verbatim>\<open>%25\<close>; an ASCII byte that should be
  escaped in a host is an error.
\<close>

fun unescape :: "encoding \<Rightarrow> string \<Rightarrow> url_error + string" where
  "unescape m [] = Inr []"
| "unescape m (c # s) =
     (if c = CHR ''%'' then
        (case s of
           a # b # rest \<Rightarrow>
             if \<not> ishex a \<or> \<not> ishex b then Inl (EscapeError (take 3 (c # s)))
             else if m = encodeHost \<and> unhex a < 8 \<and> [a, b] \<noteq> ''25''
               then Inl (EscapeError [c, a, b])
             else if m = encodeZone \<and> [a, b] \<noteq> ''25'' \<and> unhex a * 16 + unhex b \<noteq> 32 \<and>
                     shouldEscape_host (char_of (unhex a * 16 + unhex b))
               then Inl (EscapeError [c, a, b])
             else (case unescape m rest of
                     Inl e \<Rightarrow> Inl e
                   | Inr t \<Rightarrow> Inr (char_of (unhex a * 16 + unhex b) # t))
         | _ \<Rightarrow> Inl (EscapeError (take 3 (c # s))))
      else if c = CHR ''+'' then
        (case unescape m s of
           Inl e \<Rightarrow> Inl e
         | Inr t \<Rightarrow> Inr ((if m = encodeQueryComponent then CHR '' '' else CHR ''+'') # t))
      else if (m = encodeHost \<or> m = encodeZone) \<and> (of_char c :: int) < 128 \<and> shouldEscape_host c
        then Inl (InvalidHostError [c])
      else (case unescape m s of
              Inl e \<Rightarrow> Inl e
            | Inr t \<Rightarrow> Inr (c # t)))"

subsection \<open>net/url: scheme, authority, host\<close>

text \<open>\<^verbatim>\<open>getScheme\<close>: \<open>i\<close> is the index of the byte looked at, \<open>raw\<close> the whole input.\<close>

fun getScheme_loop :: "nat \<Rightarrow> string \<Rightarrow> string \<Rightarrow> url_error + (string \<times> string)" where
  "getScheme_loop i raw [] = Inr ([], raw)"
| "getScheme_loop i raw (c # cs) =
     (if is_alpha c then getScheme_loop (Suc i) raw cs
      else if is_digit c \<or> c = CHR ''+'' \<or> c = CHR ''-'' \<or> c = CHR ''.'' then
        (if i = 0 then Inr ([], raw) else getScheme_loop (Suc i) raw cs)
      else if c = CHR '':'' then
        (if i = 0 then Inl MissingProtocolScheme else Inr (take i raw, drop (Suc i) raw))
      else Inr ([], raw))"

definition getScheme :: "string \<Rightarrow> url_error + (string \<times> string)" where
  "getScheme rawURL = getScheme_loop 0 rawURL rawURL"

definition validOptionalPort :: "string \<Rightarrow> bool" where
  "validOptionalPort port =
     (case port of
        [] \<Rightarrow> True
      | c # ds \<Rightarrow> c = CHR '':'' \<and> list_all is_digit ds)"

definition validUserinfo :: "string \<Rightarrow> bool" where
  "validUserinfo s =
     list_all (\<lambda>c. is_alpha c \<or> is_digit c \<or> c \<in> set ''-._:~!$&()*+,;=%@'' \<or> c = CHR 0x27) s"

text \<open>The branch of \<^verbatim>\<open>parseHost\<close> for a host without a square bracket.\<close>

definition parseHost_regname :: "string \<Rightarrow> url_error + string" where
  "parseHost_regname host =
     (case cut_last CHR '':'' host of
        None \<Rightarrow> unescape encodeHost host
      | Some (h, p) \<Rightarrow>
          if \<not> validOptionalPort (CHR '':'' # p) then Inl (InvalidPort (CHR '':'' # p))
          else unescape encodeHost host)"

definition parseHost :: "(string \<Rightarrow> url_error + string) \<Rightarrow> string \<Rightarrow> url_error + string" where
  "parseHost ipl host =
     (if CHR ''['' \<in> set host then ipl host else parseHost_regname host)"

text \<open>
  The IP-literal branch as the releases before the address check have it (a host that
  starts with a bracket; any other host takes the branch above): the port after the last
  closing bracket must be a valid optional port, and \<^verbatim>\<open>%25\<close> starts a zone. The
  release the module asks for (go 1.25.4) accepts between the brackets an IPv6 address
  only; on a literal that is one, such as \<^verbatim>\<open>[::1]\<close>, the two answer alike, and it is
  used below on such literals and on hosts without brackets only.
\<close>

definition ipl_unchecked :: "string \<Rightarrow> url_error + string" where
  "ipl_unchecked host =
     (if take 1 host = ''['' then
        (case cut_last CHR '']'' host of
           None \<Rightarrow> Inl MissingBracket
         | Some (h, colonPort) \<Rightarrow>
             if \<not> validOptionalPort colonPort then Inl (InvalidPort colonPort)
             else
               (case strings_Index h ''%25'' of
                  None \<Rightarrow> unescape encodeHost host
                | Some zone \<Rightarrow>
                    (case unescape encodeHost (take zone host) of
                       Inl e \<Rightarrow> Inl e
                     | Inr host1 \<Rightarrow>
                         (case unescape encodeZone (drop zone h) of
                            Inl e \<Rightarrow> Inl e
                          | Inr host2 \<Rightarrow>
                              (case unescape encodeHost (CHR '']'' # colonPort) of
                                 Inl e \<Rightarrow> Inl e
                               | Inr host3 \<Rightarrow> Inr (host1 @ host2 @ host3))))))
      else parseHost_regname host)"

text \<open>\<^verbatim>\<open>parseAuthority\<close>: the user, when there is one, as name and optional password.\<close>

definition parseAuthority ::
  "(string \<Rightarrow> url_error + string) \<Rightarrow> string \<Rightarrow>
   url_error + ((string \<times> string option) option \<times> string)" where
  "parseAuthority ipl authority =
     (case cut_last CHR ''@'' authority of
        None \<Rightarrow>
          (case parseHost ipl authority of Inl e \<Rightarrow> Inl e | Inr host \<Rightarrow> Inr (None, host))
      | Some (userinfo, hostpart) \<Rightarrow>
          (case parseHost ipl hostpart of
             Inl e \<Rightarrow> Inl e
           | Inr host \<Rightarrow>
               if \<not> validUserinfo userinfo then Inl InvalidUserinfo
               else
                 (case cut_first CHR '':'' userinfo of
                    None \<Rightarrow>
                      (case unescape encodeUserPassword userinfo of
                         Inl e \<Rightarrow> Inl e
                       | Inr name \<Rightarrow> Inr (Some (name, None), host))
                  | Some (username, password) \<Rightarrow>
                      (case unescape encodeUserPassword username of
                         Inl e \<Rightarrow> Inl e
                       | Inr name \<Rightarrow>
                           (case unescape encodeUserPassword password of
                              Inl e \<Rightarrow> Inl e
                            | Inr pw \<Rightarrow> Inr (Some (name, Some pw), host))))))"

subsection \<open>net/url: Parse\<close>

record URL =
  u_Scheme :: string
  u_Opaque :: string
  u_User :: "(string \<times> string option) option"
  u_Host :: string
  u_Path :: string
  u_ForceQuery :: bool
  u_RawQuery :: string
  u_Fragment :: string

definition empty_URL :: URL where
  "empty_URL =
     \<lparr>u_Scheme = [], u_Opaque = [], u_User = None, u_Host = [], u_Path = [],
      u_ForceQuery = False, u_RawQuery = [], u_Fragment = []\<rparr>"

definition stringContainsCTLByte :: "string \<Rightarrow> bool" where
  "stringContainsCTLByte s = list_ex (\<lambda>c. (of_char c :: int) < 32 \<or> c = CHR 0x7F) s"

text \<open>\<^verbatim>\<open>parse(rawURL, viaRequest)\<close> with \<^verbatim>\<open>viaRequest = false\<close>, as \<^verbatim>\<open>Parse\<close> calls it.\<close>

definition url_parse :: "(string \<Rightarrow> url_error + string) \<Rightarrow> string \<Rightarrow> url_error + URL" where
  "url_parse ipl rawURL =
     (if stringContainsCTLByte rawURL then Inl InvalidControlCharacter
      else if rawURL = ''*'' then Inr (empty_URL\<lparr>u_Path := ''*''\<rparr>)
      else
        case getScheme rawURL of
          Inl e \<Rightarrow> Inl e
        | Inr (scheme0, rest0) \<Rightarrow>
            let scheme = strings_ToLower scheme0;
                force = (strings_HasSuffix rest0 ''?'' \<and> strings_Count rest0 CHR ''?'' = 1);
                rest1 = (if force then take (length rest0 - 1) rest0
                         else (case cut_first CHR ''?'' rest0 of None \<Rightarrow> rest0 | Some (a, b) \<Rightarrow> a));
                query = (if force then []
                         else (case cut_first CHR ''?'' rest0 of None \<Rightarrow> [] | Some (a, b) \<Rightarrow> b));
                url = empty_URL\<lparr>u_Scheme := scheme, u_ForceQuery := force, u_RawQuery := query\<rparr>
            in
            if \<not> strings_HasPrefix rest1 ''/'' \<and> scheme \<noteq> [] then Inr (url\<lparr>u_Opaque := rest1\<rparr>)
            else if \<not> strings_HasPrefix rest1 ''/'' \<and>
                    CHR '':'' \<in> set (takeWhile (\<lambda>x. x \<noteq> CHR ''/'') rest1)
              then Inl FirstPathSegmentColon
            else if (scheme \<noteq> [] \<or> \<not> strings_HasPrefix rest1 ''///'') \<and> strings_HasPrefix rest1 ''//''
              then
                (let a0 = drop 2 rest1;
                     authority = takeWhile (\<lambda>x. x \<noteq> CHR ''/'') a0;
                     rest2 = dropWhile (\<lambda>x. x \<noteq> CHR ''/'') a0
                 in case parseAuthority ipl authority of
                      Inl e \<Rightarrow> Inl e
                    | Inr (user, host) \<Rightarrow>
                        (case unescape encodePath rest2 of
                           Inl e \<Rightarrow> Inl e
                         | Inr path \<Rightarrow> Inr (url\<lparr>u_User := user, u_Host := host, u_Path := path\<rparr>)))
            else
              (case unescape encodePath rest1 of
                 Inl e \<Rightarrow> Inl e
               | Inr path \<Rightarrow> Inr (url\<lparr>u_Path := path\<rparr>)))"

definition url_Parse :: "(string \<Rightarrow> url_error + string) \<Rightarrow> string \<Rightarrow> url_error + URL" where
  "url_Parse ipl rawURL =
     (let u = (case cut_first CHR ''#'' rawURL of None \<Rightarrow> rawURL | Some (a, b) \<Rightarrow> a);
          frag = (case cut_first CHR ''#'' rawURL of None \<Rightarrow> [] | Some (a, b) \<Rightarrow> b)
      in case url_parse ipl u of
           Inl e \<Rightarrow> Inl e
         | Inr url \<Rightarrow>
             if frag = [] then Inr url
             else (case unescape encodeFragment frag of
                     Inl e \<Rightarrow> Inl e
                   | Inr f \<Rightarrow> Inr (url\<lparr>u_Fragment := f\<rparr>)))"

text \<open>\<^verbatim>\<open>splitHostPort\<close> of net/url, behind \<^verbatim>\<open>URL.Hostname\<close> and \<^verbatim>\<open>URL.Port\<close>.\<close>

definition url_splitHostPort :: "string \<Rightarrow> string \<times> string" where
  "url_splitHostPort hostPort =
     (let hp = (case cut_last CHR '':'' hostPort of
                  None \<Rightarrow> (hostPort, [])
                | Some (h, p) \<Rightarrow>
                    if validOptionalPort (CHR '':'' # p) then (h, p) else (hostPort, []));
          host = fst hp
      in if strings_HasPrefix host ''['' \<and> strings_HasSuffix host '']''
         then (take (length host - 2) (drop 1 host), snd hp)
         else hp)"

definition URL_Hostname :: "URL \<Rightarrow> string" where
  "URL_Hostname u = fst (url_splitHostPort (u_Host u))"

definition URL_Port :: "URL \<Rightarrow> string" where
  "URL_Port u = snd (url_splitHostPort (u_Host u))"

subsection \<open>net: SplitHostPort and JoinHostPort\<close>

datatype addr_error = MissingPort | TooManyColons | MissingBracketInAddress | UnexpectedBracket

definition net_SplitHostPort :: "string \<Rightarrow> addr_error + (string \<times> string)" where
  "net_SplitHostPort hostport =
     (case cut_last CHR '':'' hostport of
        None \<Rightarrow> Inl MissingPort
      | Some (front, port) \<Rightarrow>
          if take 1 hostport = ''['' then
            (case cut_first CHR '']'' hostport of
               None \<Rightarrow> Inl MissingBracketInAddress
             | Some (h, after) \<Rightarrow>
                 let close = length h in
                 if close + 1 = length hostport then Inl MissingPort
                 else if close + 1 \<noteq> length front then
                   (if take 1 after = '':'' then Inl TooManyColons else Inl MissingPort)
                 else if CHR ''['' \<in> set (drop 1 hostport) then Inl UnexpectedBracket
                 else if CHR '']'' \<in> set (drop (close + 1) hostport) then Inl UnexpectedBracket
                 else Inr (drop 1 h, port))
          else if CHR '':'' \<in> set front then Inl TooManyColons
          else if CHR ''['' \<in> set hostport then Inl UnexpectedBracket
          else if CHR '']'' \<in> set hostport then Inl UnexpectedBracket
          else Inr (front, port))"

definition net_JoinHostPort :: "string \<Rightarrow> string \<Rightarrow> string" where
  "net_JoinHostPort host port =
     (if CHR '':'' \<in> set host then ''['' @ host @ '']:'' @ port else host @ '':'' @ port)"

subsection \<open>NormalizeBackendHost (qa/requests/canonical.go)\<close>

definition strip_default_port :: "string \<Rightarrow> string" where
  "strip_default_port port = (if port = ''80'' \<or> port = ''443'' then [] else port)"

definition host_port_result :: "string \<Rightarrow> string \<Rightarrow> string" where
  "host_port_result host port =
     (if host = [] then []
      else if port \<noteq> [] then net_JoinHostPort host port
      else host)"

text \<open>
  The source writes the last steps (strip the default ports, give up on an empty host,
  join host and port) once in each of its two paths; \<open>strip_default_port\<close> and
  \<open>host_port_result\<close> are those steps. \<open>NormalizeBackendHost_fallback\<close> is the second
  half of the function, reached when \<^verbatim>\<open>url.Parse\<close> fails or finds no host.
\<close>

definition NormalizeBackendHost_fallback :: "string \<Rightarrow> string" where
  "NormalizeBackendHost_fallback s =
     (let raw0 = (case strings_Index s ''://'' of None \<Rightarrow> s | Some i \<Rightarrow> drop (i + 3) s);
          raw = strings_TrimSpace (takeWhile (\<lambda>x. x \<noteq> CHR ''/'') raw0)
      in case net_SplitHostPort raw of
           Inr (host, port) \<Rightarrow>
             host_port_result (strings_ToLower (strings_TrimSpace host))
               (strip_default_port (strings_TrimSpace port))
         | Inl e \<Rightarrow> strings_TrimSuffix (strings_ToLower raw) ''.'')"

definition NormalizeBackendHost :: "(string \<Rightarrow> url_error + string) \<Rightarrow> string \<Rightarrow> string" where
  "NormalizeBackendHost ipl input =
     (let s = strings_TrimSpace input in
      if s = [] then []
      else
        let toParse = (if \<not> strings_Contains s ''://'' then ''http://'' @ s else s) in
        case url_Parse ipl toParse of
          Inr u \<Rightarrow>
            if u_Host u \<noteq> [] then
              (let host = strings_ToLower (strings_TrimSpace (URL_Hostname u));
                   port = strip_default_port (strings_TrimSpace (URL_Port u))
               in host_port_result host port)
            else NormalizeBackendHost_fallback s
        | Inl e \<Rightarrow> NormalizeBackendHost_fallback s)"

subsection \<open>CanonicalString (qa/requests/canonical.go)\<close>

text \<open>\<^verbatim>\<open>TS\<close> is an \<^verbatim>\<open>int64\<close>; nothing is computed with it, it is only printed.\<close>

record CanonicalInput =
  ci_Method :: string
  ci_Path :: string
  ci_AppID :: string
  ci_BackendHost :: string
  ci_TS :: int
  ci_ChallengeID :: string
  ci_UserID :: string
  ci_DeviceID :: string
  ci_BodySHA256Hex :: string

text \<open>The verb \<^verbatim>\<open>%d\<close> of \<^verbatim>\<open>fmt.Sprintf\<close>: decimal digits, with a minus sign below zero.\<close>

function decimal :: "int \<Rightarrow> string" where
  "decimal n = (if n < 10 then [char_of (48 + n)] else decimal (n div 10) @ [char_of (48 + n mod 10)])"
  by pat_completeness auto
termination
  by (relation "measure nat") auto

definition fmt_d :: "int \<Rightarrow> string" where
  "fmt_d n = (if n < 0 then CHR ''-'' # decimal (- n) else decimal n)"

text \<open>\<^verbatim>\<open>strings.Join\<close> with the separator \<^verbatim>\<open>"\\n"\<close>.\<close>

fun join_lines :: "string list \<Rightarrow> string" where
  "join_lines [] = []"
| "join_lines [l] = l"
| "join_lines (l # ls) = l @ CHR 0x0A # join_lines ls"

definition CanonicalString ::
  "(string \<Rightarrow> url_error + string) \<Rightarrow> CanonicalInput \<Rightarrow> canon_error + string" where
  "CanonicalString ipl ci =
     (let bodyHex = strings_ToLower (strings_TrimSpace (ci_BodySHA256Hex ci)) in
      if bodyHex = [] then Inl MissingBodySha256
      else if length bodyHex \<noteq> 64 then Inl InvalidBodySha256Length
      else if \<not> list_all ishex bodyHex then Inl InvalidBodySha256Hex
      else
        let aud = NormalizeBackendHost ipl (ci_BackendHost ci) in
        if aud = [] then Inl InvalidAud
        else Inr (join_lines
                    [strings_ToUpper (ci_Method ci),
                     ci_Path ci,
                     ''APP: '' @ ci_AppID ci,
                     ''AUD: '' @ aud,
                     ''TS: '' @ fmt_d (ci_TS ci),
                     ''CHALLENGE: '' @ ci_ChallengeID ci,
                     ''USER: '' @ ci_UserID ci,
                     ''DEVICE: '' @ ci_DeviceID ci,
                     ''BODY-SHA256: '' @ bodyHex]))"

text \<open>The request of the specification's scenarios, with version 4 identifiers.\<close>

definition example_input :: CanonicalInput where
  "example_input =
     \<lparr>ci_Method = ''POST'', ci_Path = ''/api/v1/login?x=1'', ci_AppID = ''app-1'',
      ci_BackendHost = ''EXAMPLE.com:443'', ci_TS = 1700000000,
      ci_ChallengeID = ''3f2b8c1e-5d4a-4e6f-9a7b-1c2d3e4f5a6b'',
      ci_UserID = ''7c9e6679-7425-40de-944b-e07fc1f90ae7'',
      ci_DeviceID = ''16fd2706-8baf-433b-82eb-8c7fada847da'',
      ci_BodySHA256Hex = ''e3b0c44298fc1c149afbf4c8996fb92427ae41e4649b934ca495991b7852b855''\<rparr>"

text \<open>
  A plain host with an optional port: a non-empty run of ASCII letters, digits,
  \<^verbatim>\<open>-\<close>, \<^verbatim>\<open>.\<close> and \<^verbatim>\<open>_\<close>, alone or followed by a colon and decimal digits.
\<close>

definition host_char :: "char \<Rightarrow> bool" where
  "host_char c = (is_alpha c \<or> is_digit c \<or> c = CHR ''-'' \<or> c = CHR ''.'' \<or> c = CHR ''_'')"

definition plain_hostport :: "string \<Rightarrow> bool" where
  "plain_hostport h =
     (case cut_first CHR '':'' h of
        None \<Rightarrow> h \<noteq> [] \<and> list_all host_char h
      | Some (host, port) \<Rightarrow> host \<noteq> [] \<and> list_all host_char host \<and> list_all is_digit port)"

text \<open>Two classes of bytes for the statements about plain hosts: printable ASCII, and what
  a plain host with a port is made of.\<close>

definition printable :: "char \<Rightarrow> bool" where
  "printable c = ((33::int) \<le> of_char c \<and> (of_char c :: int) \<le> 126)"

definition hp_char :: "char \<Rightarrow> bool" where
  "hp_char c = (host_char c \<or> c = CHR '':'')"

text \<open>
  A plain URL: a plain host with optional port, or a scheme of letters, \<^verbatim>\<open>://\<close>, a plain
  host with optional port, and possibly a path of letters, digits, \<^verbatim>\<open>-\<close>, \<^verbatim>\<open>.\<close>,
  \<^verbatim>\<open>_\<close> and \<^verbatim>\<open>/\<close>.
\<close>

definition path_char :: "char \<Rightarrow> bool" where
  "path_char c = (host_char c \<or> c = CHR ''/'')"

definition plain_url :: "string \<Rightarrow> bool" where
  "plain_url h =
     (case strings_Index h ''://'' of
        None \<Rightarrow> plain_hostport h
      | Some i \<Rightarrow>
          (let sch = take i h;
               rest = drop (i + 3) h;
               hp = takeWhile (\<lambda>x. x \<noteq> CHR ''/'') rest;
               path = dropWhile (\<lambda>x. x \<noteq> CHR ''/'') rest
           in sch \<noteq> [] \<and> list_all is_alpha sch \<and> plain_hostport hp \<and> list_all path_char path))"

section \<open>The hardware signer and the sealer (package tpmdevice)\<close>

type_synonym byte = "8 word"

subsection \<open>pad32 (helpers of the package)\<close>

text \<open>
  \<^verbatim>\<open>big.Int.Bytes()\<close>: the absolute value as a big-endian byte slice without leading
  zeros (the empty slice for 0).
\<close>

function be_bytes :: "int \<Rightarrow> byte list" where
  "be_bytes n = (if n \<le> 0 then [] else be_bytes (n div 256) @ [word_of_int (n mod 256)])"
  by pat_completeness auto
termination
  by (relation "measure nat") auto

definition big_Bytes :: "int \<Rightarrow> byte list" where
  "big_Bytes x = be_bytes \<bar>x\<bar>"

text \<open>
  Go's \<^verbatim>\<open>copy(out[off:], src)\<close>: the bytes of \<open>src\<close> that fit overwrite \<open>out\<close> from
  index \<open>off\<close> on.
\<close>

definition copy_at :: "'a list \<Rightarrow> nat \<Rightarrow> 'a list \<Rightarrow> 'a list" where
  "copy_at out off src =
     (let n = min (length out - off) (length src)
      in take off out @ take n src @ drop (off + n) out)"

text \<open>A \<^verbatim>\<open>*big.Int\<close> is \<open>None\<close> when the pointer is nil.\<close>

definition pad32 :: "int option \<Rightarrow> byte list" where
  "pad32 n =
     (let out = replicate 32 (0 :: byte) in
      case n of
        None \<Rightarrow> out
      | Some x \<Rightarrow>
          let nb = big_Bytes x;
              nb = (if length nb > 32 then drop (length nb - 32) nb else nb)
          in copy_at out (32 - length nb) nb)"

subsection \<open>The device\<close>

text \<open>
  The TPM is reached through the library go-tpm, which is not part of the repository. An
  open connection (\<^verbatim>\<open>rwc\<close>) is modelled by what the device answers to each command the
  package sends; the commands attempted are logged in the state. The answer to
  \<^verbatim>\<open>Unseal\<close> depends on the object the handle holds: \<open>tpm2_Unseal\<close> takes the handle
  and the public and private blobs that \<^verbatim>\<open>Load\<close> put under it.
\<close>

datatype tpm_error = TPMError string

record SignatureECC =
  sig_R :: "int option"
  sig_S :: "int option"

text \<open>\<^verbatim>\<open>tpm2.Signature\<close>: the field \<^verbatim>\<open>ECC\<close> is nil for a signature that is not ECC.\<close>

record Signature =
  sig_ECC :: "SignatureECC option"

record tpm_conn =
  tpm2_Sign :: "32 word \<Rightarrow> byte list \<Rightarrow> tpm_error + Signature"
  tpm2_CreatePrimary :: "string \<Rightarrow> tpm_error + 32 word"
  tpm2_CreateKeyWithSensitive ::
    "32 word \<Rightarrow> string \<Rightarrow> byte list \<Rightarrow> tpm_error + (byte list \<times> byte list)"
  tpm2_Load :: "32 word \<Rightarrow> byte list \<Rightarrow> byte list \<Rightarrow> tpm_error + 32 word"
  tpm2_Unseal :: "32 word \<Rightarrow> byte list \<times> byte list \<Rightarrow> tpm_error + byte list"

datatype tpm_op =
    OpOpenTPM
  | OpClose
  | OpCreatePrimary
  | OpCreateKeyWithSensitive
  | OpLoad
  | OpUnseal
  | OpFlushContext "32 word"

subsection \<open>Sign (tpmdevice.go)\<close>

record client =
  c_rwc :: "tpm_conn option"
  c_handle :: "32 word"
  c_pub :: "byte list"
  c_pubB64 :: string

datatype sign_error =
    ClientNotInitialized
  | SignFailed tpm_error
  | NonECCSignature

text \<open>
  The receiver is \<open>None\<close> for a nil \<^verbatim>\<open>*client\<close>. \<open>sha256\<close> stands for
  \<^verbatim>\<open>sha256.Sum256\<close>.
\<close>

definition client_Sign ::
  "(byte list \<Rightarrow> byte list) \<Rightarrow> client option \<Rightarrow> byte list \<Rightarrow> sign_error + byte list" where
  "client_Sign sha256 c msg =
     (case c of
        None \<Rightarrow> Inl ClientNotInitialized
      | Some cl \<Rightarrow>
          (case c_rwc cl of
             None \<Rightarrow> Inl ClientNotInitialized
           | Some dev \<Rightarrow>
               let d = sha256 msg in
               (case tpm2_Sign dev (c_handle cl) d of
                  Inl e \<Rightarrow> Inl (SignFailed e)
                | Inr sig \<Rightarrow>
                    (case sig_ECC sig of
                       None \<Rightarrow> Inl NonECCSignature
                     | Some ecc \<Rightarrow> Inr (pad32 (sig_R ecc) @ pad32 (sig_S ecc))))))"

text \<open>A device for examples: it answers every Sign with the ECC signature (258, 7), keeps
  a sealed secret in the private blob and gives it back on Unseal.\<close>

definition demo_conn :: tpm_conn where
  "demo_conn =
     \<lparr>tpm2_Sign = (\<lambda>h d. Inr \<lparr>sig_ECC = Some \<lparr>sig_R = Some 258, sig_S = Some 7\<rparr>\<rparr>),
      tpm2_CreatePrimary = (\<lambda>auth. Inr 0x80000000),
      tpm2_CreateKeyWithSensitive = (\<lambda>parent auth secret. Inr (secret, [])),
      tpm2_Load = (\<lambda>parent pub priv. Inr 0x80000001),
      tpm2_Unseal = (\<lambda>h obj. Inr (snd obj))\<rparr>"

definition demo_client :: client where
  "demo_client = \<lparr>c_rwc = Some demo_conn, c_handle = 0x8100A001, c_pub = [], c_pubB64 = []\<rparr>"

subsection \<open>The sealer (build tag !darwin, and the darwin stub)\<close>

text \<open>
  The state the sealer works on: the connection \<^verbatim>\<open>openTPM\<close> finds (\<open>None\<close> when no
  device can be opened) and the log of the device operations attempted.
\<close>

record tpm_world =
  tpm_present :: "tpm_conn option"
  tpm_trace :: "tpm_op list"

definition tpm_log :: "tpm_op \<Rightarrow> tpm_world \<Rightarrow> tpm_world" where
  "tpm_log op w = w\<lparr>tpm_trace := tpm_trace w @ [op]\<rparr>"

record sealedBlobV1 =
  sb_V :: int
  sb_Label :: string
  sb_Priv :: "byte list"
  sb_Pub :: "byte list"

datatype sealer_error =
    SecretEmpty
  | NoTPMDevice
  | CreatePrimaryStorage tpm_error
  | CreateKeyWithSensitiveInfo tpm_error
  | MarshalSealedBlob
  | UnmarshalSealedBlob
  | UnsupportedSealedBlobVersion int
  | SealedBlobLabelMismatch
  | LoadSealed tpm_error
  | UnsealFailed tpm_error
  | NotSupportedOnDarwin

definition openTPM :: "tpm_world \<Rightarrow> (sealer_error + tpm_conn) \<times> tpm_world" where
  "openTPM w =
     (case tpm_present w of
        None \<Rightarrow> (Inl NoTPMDevice, tpm_log OpOpenTPM w)
      | Some rwc \<Rightarrow> (Inr rwc, tpm_log OpOpenTPM w))"

definition createPrimaryStorageKey ::
  "tpm_conn \<Rightarrow> string \<Rightarrow> tpm_world \<Rightarrow> (sealer_error + 32 word) \<times> tpm_world" where
  "createPrimaryStorageKey rwc ownerAuth w =
     (case tpm2_CreatePrimary rwc ownerAuth of
        Inl e \<Rightarrow> (Inl (CreatePrimaryStorage e), tpm_log OpCreatePrimary w)
      | Inr h \<Rightarrow> (Inr h, tpm_log OpCreatePrimary w))"

text \<open>
  \<^verbatim>\<open>json.Marshal\<close> and \<^verbatim>\<open>json.Unmarshal\<close> of the sealed blob are parameters
  (\<open>marshal\<close>, \<open>unmarshal\<close>). The deferred calls (\<^verbatim>\<open>FlushContext\<close>, then
  \<^verbatim>\<open>rwc.Close\<close>) run on every return after their \<^verbatim>\<open>defer\<close> statement.
\<close>

definition tpm2Sealer_Seal ::
  "(sealedBlobV1 \<Rightarrow> byte list option) \<Rightarrow> string \<Rightarrow> string \<Rightarrow> byte list \<Rightarrow>
   tpm_world \<Rightarrow> (sealer_error + byte list) \<times> tpm_world" where
  "tpm2Sealer_Seal marshal ownerAuth label secret w =
     (if length secret = 0 then (Inl SecretEmpty, w)
      else
        case openTPM w of
          (Inl e, w1) \<Rightarrow> (Inl e, w1)
        | (Inr rwc, w1) \<Rightarrow>
            (case createPrimaryStorageKey rwc ownerAuth w1 of
               (Inl e, w2) \<Rightarrow> (Inl e, tpm_log OpClose w2)
             | (Inr parent, w2) \<Rightarrow>
                 let w3 = tpm_log OpCreateKeyWithSensitive w2;
                     deferred = (\<lambda>v. tpm_log OpClose (tpm_log (OpFlushContext parent) v))
                 in
                 (case tpm2_CreateKeyWithSensitive rwc parent ownerAuth secret of
                    Inl e \<Rightarrow> (Inl (CreateKeyWithSensitiveInfo e), deferred w3)
                  | Inr (privBlob, pubBlob) \<Rightarrow>
                      (case marshal \<lparr>sb_V = 1, sb_Label = label, sb_Priv = privBlob, sb_Pub = pubBlob\<rparr> of
                         None \<Rightarrow> (Inl MarshalSealedBlob, deferred w3)
                       | Some out \<Rightarrow> (Inr out, deferred w3)))))"

definition tpm2Sealer_Unseal ::
  "(byte list \<Rightarrow> sealedBlobV1 option) \<Rightarrow> string \<Rightarrow> string \<Rightarrow> byte list \<Rightarrow>
   tpm_world \<Rightarrow> (sealer_error + byte list) \<times> tpm_world" where
  "tpm2Sealer_Unseal unmarshal ownerAuth label blob w =
     (case openTPM w of
        (Inl e, w1) \<Rightarrow> (Inl e, w1)
      | (Inr rwc, w1) \<Rightarrow>
          (case unmarshal blob of
             None \<Rightarrow> (Inl UnmarshalSealedBlob, tpm_log OpClose w1)
           | Some sb \<Rightarrow>
               if sb_V sb \<noteq> 1 then (Inl (UnsupportedSealedBlobVersion (sb_V sb)), tpm_log OpClose w1)
               else if sb_Label sb \<noteq> [] \<and> sb_Label sb \<noteq> label
                 then (Inl SealedBlobLabelMismatch, tpm_log OpClose w1)
               else
                 (case createPrimaryStorageKey rwc ownerAuth w1 of
                    (Inl e, w2) \<Rightarrow> (Inl e, tpm_log OpClose w2)
                  | (Inr parent, w2) \<Rightarrow>
                      let w3 = tpm_log OpLoad w2;
                          deferred = (\<lambda>v. tpm_log OpClose (tpm_log (OpFlushContext parent) v))
                      in
                      (case tpm2_Load rwc parent (sb_Pub sb) (sb_Priv sb) of
                         Inl e \<Rightarrow> (Inl (LoadSealed e), deferred w3)
                       | Inr h \<Rightarrow>
                           let w4 = tpm_log OpUnseal w3;
                               deferred' = (\<lambda>v. deferred (tpm_log (OpFlushContext h) v))
                           in
                           (case tpm2_Unseal rwc h (sb_Pub sb, sb_Priv sb) of
                              Inl e \<Rightarrow> (Inl (UnsealFailed e), deferred' w4)
                            | Inr secret \<Rightarrow> (Inr secret, deferred' w4))))))"

text \<open>The interface \<^verbatim>\<open>Sealer\<close> (sealer.go): a value of it is its two methods.\<close>

record 'w Sealer =
  Seal :: "string \<Rightarrow> byte list \<Rightarrow> 'w \<Rightarrow> (sealer_error + byte list) \<times> 'w"
  Unseal :: "string \<Rightarrow> byte list \<Rightarrow> 'w \<Rightarrow> (sealer_error + byte list) \<times> 'w"

definition NewSealer ::
  "(sealedBlobV1 \<Rightarrow> byte list option) \<Rightarrow> (byte list \<Rightarrow> sealedBlobV1 option) \<Rightarrow> string \<Rightarrow>
   tpm_world Sealer" where
  "NewSealer marshal unmarshal ownerAuth =
     \<lparr>Seal = tpm2Sealer_Seal marshal ownerAuth, Unseal = tpm2Sealer_Unseal unmarshal ownerAuth\<rparr>"

definition NewSealer_darwin :: "'w Sealer" where
  "NewSealer_darwin =
     \<lparr>Seal = (\<lambda>label secret w. (Inl NotSupportedOnDarwin, w)),
      Unseal = (\<lambda>label blob w. (Inl NotSupportedOnDarwin, w))\<rparr>"

section \<open>The sealed post-quantum key file (package cryptoctx)\<close>

subsection \<open>The state: files, entropy, device\<close>

text \<open>
  The file system is a table from paths to the contents of regular files; directories are
  not tracked. Any operation on it can fail for a reason outside the table (permissions,
  a full disk): \<open>fs_fault\<close> names the operations that do, with their error.
  \<^verbatim>\<open>crypto/rand\<close> reads from a stream of bytes.
\<close>

datatype io_error = IOError string

datatype fs_op =
    FsStat string
  | FsMkdirAll string
  | FsRemove string
  | FsWriteFile string
  | FsRename string string
  | FsReadFile string

record world =
  w_tpm :: tpm_world
  files :: "string \<Rightarrow> byte list option"
  fs_fault :: "fs_op \<Rightarrow> io_error option"
  entropy :: "nat \<Rightarrow> byte"
  entropy_pos :: nat
  rand_fault :: bool

datatype stat_result = StatOk | StatNotExist | StatError io_error

definition os_Stat :: "world \<Rightarrow> string \<Rightarrow> stat_result" where
  "os_Stat w p =
     (case fs_fault w (FsStat p) of
        Some e \<Rightarrow> StatError e
      | None \<Rightarrow> (case files w p of None \<Rightarrow> StatNotExist | Some b \<Rightarrow> StatOk))"

datatype read_result = ReadOk "byte list" | ReadNotExist | ReadError io_error

definition os_ReadFile :: "world \<Rightarrow> string \<Rightarrow> read_result" where
  "os_ReadFile w p =
     (case fs_fault w (FsReadFile p) of
        Some e \<Rightarrow> ReadError e
      | None \<Rightarrow> (case files w p of None \<Rightarrow> ReadNotExist | Some b \<Rightarrow> ReadOk b))"

definition os_MkdirAll :: "string \<Rightarrow> world \<Rightarrow> io_error option \<times> world" where
  "os_MkdirAll d w = (fs_fault w (FsMkdirAll d), w)"

definition os_Remove :: "string \<Rightarrow> world \<Rightarrow> io_error option \<times> world" where
  "os_Remove p w =
     (case fs_fault w (FsRemove p) of
        Some e \<Rightarrow> (Some e, w)
      | None \<Rightarrow>
          (case files w p of
             None \<Rightarrow> (Some (IOError ''no such file or directory''), w)
           | Some b \<Rightarrow> (None, w\<lparr>files := (files w)(p := None)\<rparr>)))"

definition os_WriteFile :: "string \<Rightarrow> byte list \<Rightarrow> world \<Rightarrow> io_error option \<times> world" where
  "os_WriteFile p data w =
     (case fs_fault w (FsWriteFile p) of
        Some e \<Rightarrow> (Some e, w)
      | None \<Rightarrow> (None, w\<lparr>files := (files w)(p \<mapsto> data)\<rparr>))"

definition os_Rename :: "string \<Rightarrow> string \<Rightarrow> world \<Rightarrow> io_error option \<times> world" where
  "os_Rename old new w =
     (case fs_fault w (FsRename old new) of
        Some e \<Rightarrow> (Some e, w)
      | None \<Rightarrow>
          (case files w old of
             None \<Rightarrow> (Some (IOError ''no such file or directory''), w)
           | Some b \<Rightarrow> (None, w\<lparr>files := (files w)(old := None, new \<mapsto> b)\<rparr>)))"

text \<open>\<^verbatim>\<open>rand.Read(buf)\<close> with \<^verbatim>\<open>len(buf) = n\<close>: the next \<open>n\<close> bytes of the stream.\<close>

definition rand_Read :: "nat \<Rightarrow> world \<Rightarrow> (io_error + byte list) \<times> world" where
  "rand_Read n w =
     (if rand_fault w then (Inl (IOError ''rand''), w)
      else (Inr (map (entropy w) [entropy_pos w ..< entropy_pos w + n]),
            w\<lparr>entropy_pos := entropy_pos w + n\<rparr>))"

subsection \<open>The libraries\<close>

text \<open>
  \<^verbatim>\<open>encoding/json\<close>, \<^verbatim>\<open>encoding/base64\<close>, the XChaCha20-Poly1305 AEAD and
  \<^verbatim>\<open>path/filepath\<close> are outside the repository: they are parameters of the model, and
  what a statement needs of them is a hypothesis of that statement.
\<close>

record pqEnvelopeV1 =
  env_V :: int
  env_SealedDEK_B64 :: string
  env_NonceB64 :: string
  env_CTB64 :: string
  env_Label :: string

record pqPayloadV1 =
  pay_Pub :: "byte list"
  pay_Priv :: "byte list"

record pqKeypair =
  kp_Pub :: "byte list"
  kp_Priv :: "byte list"

record lib =
  json_MarshalIndent_envelope :: "pqEnvelopeV1 \<Rightarrow> byte list option"
  json_Unmarshal_envelope :: "byte list \<Rightarrow> pqEnvelopeV1 option"
  json_Marshal_payload :: "pqPayloadV1 \<Rightarrow> byte list option"
  json_Unmarshal_payload :: "byte list \<Rightarrow> pqPayloadV1 option"
  base64_EncodeToString :: "byte list \<Rightarrow> string"
  base64_DecodeString :: "string \<Rightarrow> byte list option"
  aead_Seal :: "byte list \<Rightarrow> byte list \<Rightarrow> byte list \<Rightarrow> byte list \<Rightarrow> byte list"
  aead_Open :: "byte list \<Rightarrow> byte list \<Rightarrow> byte list \<Rightarrow> byte list \<Rightarrow> byte list option"
  filepath_Abs :: "string \<Rightarrow> string option"
  filepath_Dir :: "string \<Rightarrow> string"

text \<open>
  \<^verbatim>\<open>chacha20poly1305.NewX\<close> refuses a key that is not 32 bytes long; \<^verbatim>\<open>Seal\<close> and
  \<^verbatim>\<open>Open\<close> of the AEAD it returns panic on a nonce that is not 24 bytes long
  (\<^verbatim>\<open>NonceSizeX\<close>). The arguments of \<open>aead_Seal\<close> and \<open>aead_Open\<close> are key, nonce,
  text and associated data.
\<close>

definition chacha20poly1305_NewX :: "byte list \<Rightarrow> byte list option" where
  "chacha20poly1305_NewX key = (if length key \<noteq> 32 then None else Some key)"

definition xchacha_Seal :: "lib \<Rightarrow> byte list \<Rightarrow> byte list \<Rightarrow> byte list \<Rightarrow> byte list \<Rightarrow> byte list run" where
  "xchacha_Seal L key nonce plaintext ad =
     (if length nonce \<noteq> 24 then Panics else Returns (aead_Seal L key nonce plaintext ad))"

definition xchacha_Open ::
  "lib \<Rightarrow> byte list \<Rightarrow> byte list \<Rightarrow> byte list \<Rightarrow> byte list \<Rightarrow> byte list option run" where
  "xchacha_Open L key nonce ct ad =
     (if length nonce \<noteq> 24 then Panics else Returns (aead_Open L key nonce ct ad))"

subsection \<open>The runtime\<close>

datatype cc_error =
    ErrCorruptOrTampered
  | ErrMissingPQKeyFile
  | ErrMissingTPMPublicKey
  | RuntimeIsNil
  | StatPQKeyFile io_error
  | MkdirPQDir io_error
  | PQKeygenFailed string
  | MarshalPQPub string
  | MarshalPQPriv string
  | RandDek io_error
  | SealDek sealer_error
  | MarshalPayload
  | AeadKey
  | RandNonce io_error
  | MarshalEnvelope
  | ReadPQKeyFile io_error
  | UnmarshalEnvelope
  | UnsupportedEnvelopeVersion int
  | MkdirFailed io_error
  | WriteTmp io_error
  | RenameFailed io_error

text \<open>A key of the signature scheme, as far as the package uses it: what
  \<^verbatim>\<open>MarshalBinary\<close> returns.\<close>

record pq_key =
  MarshalBinary :: "string + byte list"

record Scheme =
  GenerateKey :: "world \<Rightarrow> (string + (pq_key \<times> pq_key)) \<times> world"

record runtimeImpl =
  rt_tpm :: "client option"
  rt_sealer :: "tpm_world Sealer"
  rt_scheme :: Scheme
  rt_pqPath :: string
  rt_pqLabel :: string
  rt_tpmPubB64 :: string

text \<open>A call of the sealer works on the device part of the state.\<close>

definition with_tpm :: "(tpm_world \<Rightarrow> 'a \<times> tpm_world) \<Rightarrow> world \<Rightarrow> 'a \<times> world" where
  "with_tpm f w = (case f (w_tpm w) of (x, t) \<Rightarrow> (x, w\<lparr>w_tpm := t\<rparr>))"

text \<open>The conversion \<^verbatim>\<open>[]byte(s)\<close> of a string.\<close>

definition byte_of_char :: "char \<Rightarrow> byte" where
  "byte_of_char c = word_of_nat (of_char c)"

definition bytes_of_string :: "string \<Rightarrow> byte list" where
  "bytes_of_string s = map byte_of_char s"

definition aad_path :: "lib \<Rightarrow> string \<Rightarrow> string" where
  "aad_path L p = (case filepath_Abs L p of Some a \<Rightarrow> a | None \<Rightarrow> p)"

definition aad :: "lib \<Rightarrow> runtimeImpl \<Rightarrow> byte list" where
  "aad L r =
     bytes_of_string (''quantumauth:cryptoctx:pq:v1|'' @ rt_pqLabel r @ ''|'' @ aad_path L (rt_pqPath r))"

definition atomicWriteFile :: "lib \<Rightarrow> string \<Rightarrow> byte list \<Rightarrow> world \<Rightarrow> cc_error option \<times> world" where
  "atomicWriteFile L path data w =
     (let tmp = path @ ''.tmp'';
          w1 = snd (os_Remove tmp w)
      in case os_MkdirAll (filepath_Dir L path) w1 of
           (Some e, w2) \<Rightarrow> (Some (MkdirFailed e), w2)
         | (None, w2) \<Rightarrow>
             (case os_WriteFile tmp data w2 of
                (Some e, w3) \<Rightarrow> (Some (WriteTmp e), w3)
              | (None, w3) \<Rightarrow>
                  (case os_Rename tmp path w3 of
                     (Some e, w4) \<Rightarrow> (Some (RenameFailed e), snd (os_Remove tmp w4))
                   | (None, w4) \<Rightarrow> (None, w4))))"

text \<open>
  The functions below return a Go \<^verbatim>\<open>error\<close> as \<open>Some e\<close> and \<^verbatim>\<open>nil\<close> as \<open>None\<close>.
  The deferred \<^verbatim>\<open>zeroBytes\<close> and \<^verbatim>\<open>zeroize\<close> calls overwrite buffers that are local to
  the call (the DEK, the freshly marshalled key pair) after the result is fixed; they
  change neither the result nor the state and are left out.
\<close>

definition writeEncryptedPQKeypair ::
  "lib \<Rightarrow> runtimeImpl \<Rightarrow> pqKeypair \<Rightarrow> world \<Rightarrow> cc_error option run \<times> world" where
  "writeEncryptedPQKeypair L r kp w =
     (case rand_Read 32 w of
        (Inl e, w1) \<Rightarrow> (Returns (Some (RandDek e)), w1)
      | (Inr dek, w1) \<Rightarrow>
          (case with_tpm (Seal (rt_sealer r) (rt_pqLabel r) dek) w1 of
             (Inl e, w2) \<Rightarrow> (Returns (Some (SealDek e)), w2)
           | (Inr sealed, w2) \<Rightarrow>
               (case json_Marshal_payload L \<lparr>pay_Pub = kp_Pub kp, pay_Priv = kp_Priv kp\<rparr> of
                  None \<Rightarrow> (Returns (Some MarshalPayload), w2)
                | Some payloadBytes \<Rightarrow>
                    (case chacha20poly1305_NewX dek of
                       None \<Rightarrow> (Returns (Some AeadKey), w2)
                     | Some key \<Rightarrow>
                         (case rand_Read 24 w2 of
                            (Inl e, w3) \<Rightarrow> (Returns (Some (RandNonce e)), w3)
                          | (Inr nonce, w3) \<Rightarrow>
                              (case xchacha_Seal L key nonce payloadBytes (aad L r) of
                                 Panics \<Rightarrow> (Panics, w3)
                               | Returns ct \<Rightarrow>
                                   (case json_MarshalIndent_envelope L
                                           \<lparr>env_V = 1,
                                            env_SealedDEK_B64 = base64_EncodeToString L sealed,
                                            env_NonceB64 = base64_EncodeToString L nonce,
                                            env_CTB64 = base64_EncodeToString L ct,
                                            env_Label = rt_pqLabel r\<rparr> of
                                      None \<Rightarrow> (Returns (Some MarshalEnvelope), w3)
                                    | Some out \<Rightarrow>
                                        (case atomicWriteFile L (rt_pqPath r) out w3 of
                                           (res, w4) \<Rightarrow> (Returns res, w4)))))))))"

definition EnsurePQKeypair ::
  "lib \<Rightarrow> runtimeImpl option \<Rightarrow> world \<Rightarrow> cc_error option run \<times> world" where
  "EnsurePQKeypair L r0 w =
     (case r0 of
        None \<Rightarrow> (Returns (Some RuntimeIsNil), w)
      | Some r \<Rightarrow>
          (case os_Stat w (rt_pqPath r) of
             StatOk \<Rightarrow> (Returns None, w)
           | StatError e \<Rightarrow> (Returns (Some (StatPQKeyFile e)), w)
           | StatNotExist \<Rightarrow>
               (case os_MkdirAll (filepath_Dir L (rt_pqPath r)) w of
                  (Some e, w1) \<Rightarrow> (Returns (Some (MkdirPQDir e)), w1)
                | (None, w1) \<Rightarrow>
                    (case GenerateKey (rt_scheme r) w1 of
                       (Inl e, w2) \<Rightarrow> (Returns (Some (PQKeygenFailed e)), w2)
                     | (Inr (pk, sk), w2) \<Rightarrow>
                         (case MarshalBinary pk of
                            Inl e \<Rightarrow> (Returns (Some (MarshalPQPub e)), w2)
                          | Inr pubBytes \<Rightarrow>
                              (case MarshalBinary sk of
                                 Inl e \<Rightarrow> (Returns (Some (MarshalPQPriv e)), w2)
                               | Inr privBytes \<Rightarrow>
                                   writeEncryptedPQKeypair L r
                                     \<lparr>kp_Pub = pubBytes, kp_Priv = privBytes\<rparr> w2))))))"

definition loadPQKeypair ::
  "lib \<Rightarrow> runtimeImpl \<Rightarrow> world \<Rightarrow> (cc_error + pqKeypair) run \<times> world" where
  "loadPQKeypair L r w =
     (case os_ReadFile w (rt_pqPath r) of
        ReadNotExist \<Rightarrow> (Returns (Inl ErrMissingPQKeyFile), w)
      | ReadError e \<Rightarrow> (Returns (Inl (ReadPQKeyFile e)), w)
      | ReadOk b \<Rightarrow>
          (case json_Unmarshal_envelope L b of
             None \<Rightarrow> (Returns (Inl UnmarshalEnvelope), w)
           | Some env \<Rightarrow>
               if env_V env \<noteq> 1 then (Returns (Inl (UnsupportedEnvelopeVersion (env_V env))), w)
               else if env_Label env \<noteq> [] \<and> env_Label env \<noteq> rt_pqLabel r
                 then (Returns (Inl ErrCorruptOrTampered), w)
               else
                 (case base64_DecodeString L (env_SealedDEK_B64 env) of
                    None \<Rightarrow> (Returns (Inl ErrCorruptOrTampered), w)
                  | Some sealed \<Rightarrow>
                 (case base64_DecodeString L (env_NonceB64 env) of
                    None \<Rightarrow> (Returns (Inl ErrCorruptOrTampered), w)
                  | Some nonce \<Rightarrow>
                 (case base64_DecodeString L (env_CTB64 env) of
                    None \<Rightarrow> (Returns (Inl ErrCorruptOrTampered), w)
                  | Some ct \<Rightarrow>
                 (case with_tpm (Unseal (rt_sealer r) (rt_pqLabel r) sealed) w of
                    (Inl e, w1) \<Rightarrow> (Returns (Inl ErrCorruptOrTampered), w1)
                  | (Inr dek, w1) \<Rightarrow>
                      if length dek \<noteq> 32 then (Returns (Inl ErrCorruptOrTampered), w1)
                      else
                        (case chacha20poly1305_NewX dek of
                           None \<Rightarrow> (Returns (Inl AeadKey), w1)
                         | Some key \<Rightarrow>
                             (case xchacha_Open L key nonce ct (aad L r) of
                                Panics \<Rightarrow> (Panics, w1)
                              | Returns None \<Rightarrow> (Returns (Inl ErrCorruptOrTampered), w1)
                              | Returns (Some plain) \<Rightarrow>
                                  (case json_Unmarshal_payload L plain of
                                     None \<Rightarrow> (Returns (Inl ErrCorruptOrTampered), w1)
                                   | Some payload \<Rightarrow>
                                       if length (pay_Pub payload) = 0 \<or> length (pay_Priv payload) = 0
                                         then (Returns (Inl ErrCorruptOrTampered), w1)
                                       else (Returns (Inr \<lparr>kp_Pub = pay_Pub payload,
                                                            kp_Priv = pay_Priv payload\<rparr>), w1))))))))))"

text \<open>\<open>loads n\<close>: the results of \<open>n\<close> loads one after the other.\<close>

fun loads :: "lib \<Rightarrow> runtimeImpl \<Rightarrow> nat \<Rightarrow> world \<Rightarrow> (cc_error + pqKeypair) run list" where
  "loads L r 0 w = []"
| "loads L r (Suc n) w = (case loadPQKeypair L r w of (res, w') \<Rightarrow> res # loads L r n w')"

subsection \<open>What the statements assume of the libraries\<close>

text \<open>
  \<open>lib_roundtrip\<close>: decoding inverts encoding (JSON of the envelope and of the payload,
  base64), and the AEAD opens what it sealed under the same key, nonce and associated data.
  For JSON that is so for strings that are valid UTF-8; \<open>lib_faithful\<close> below has every
  string as it is read back.
  \<open>aead_binding\<close>: a sealed text opens only under the associated data it was sealed with.
\<close>

definition lib_roundtrip :: "lib \<Rightarrow> bool" where
  "lib_roundtrip L =
     ((\<forall>env b. json_MarshalIndent_envelope L env = Some b \<longrightarrow> json_Unmarshal_envelope L b = Some env) \<and>
      (\<forall>p b. json_Marshal_payload L p = Some b \<longrightarrow> json_Unmarshal_payload L b = Some p) \<and>
      (\<forall>x. base64_DecodeString L (base64_EncodeToString L x) = Some x) \<and>
      (\<forall>k n p a. length k = 32 \<and> length n = 24 \<longrightarrow> aead_Open L k n (aead_Seal L k n p a) a = Some p))"

definition aead_binding :: "lib \<Rightarrow> bool" where
  "aead_binding L =
     (\<forall>k n k0 n0 p0 a0 a p. aead_Open L k n (aead_Seal L k0 n0 p0 a0) a = Some p \<longrightarrow> a = a0)"

subsection \<open>Strings through JSON\<close>

text \<open>
  A Go string is a sequence of bytes. \<^verbatim>\<open>encoding/json\<close> writes a string rune by rune
  (\<^verbatim>\<open>appendString\<close>): a byte below \<^verbatim>\<open>0x80\<close> is written as it is or as an escape, and
  from any other byte on \<^verbatim>\<open>utf8.DecodeRuneInString\<close> is asked for the next rune; when it
  answers \<^verbatim>\<open>RuneError\<close> with size 1 (the bytes do not start a valid UTF-8 sequence) the
  encoder writes the escape of U+FFFD and goes one byte on, otherwise it goes on by the size of the
  rune. Reading the text back gives the string with each such byte replaced by the three
  bytes of U+FFFD.

  \<open>utf8_first\<close> is the table \<^verbatim>\<open>first\<close> of \<^verbatim>\<open>unicode/utf8\<close> with its accept ranges:
  the size of the sequence a byte starts and the bounds of the second byte, \<open>None\<close> for a
  byte that starts none.
\<close>

definition utf8_first :: "char \<Rightarrow> (nat \<times> int \<times> int) option" where
  "utf8_first c =
     (let b = (of_char c :: int) in
      if b < 0x80 then Some (1, 0x80, 0xBF)
      else if b < 0xC2 then None
      else if b < 0xE0 then Some (2, 0x80, 0xBF)
      else if b = 0xE0 then Some (3, 0xA0, 0xBF)
      else if b < 0xED then Some (3, 0x80, 0xBF)
      else if b = 0xED then Some (3, 0x80, 0x9F)
      else if b < 0xF0 then Some (3, 0x80, 0xBF)
      else if b = 0xF0 then Some (4, 0x90, 0xBF)
      else if b < 0xF4 then Some (4, 0x80, 0xBF)
      else if b = 0xF4 then Some (4, 0x80, 0x8F)
      else None)"

definition utf8_between :: "int \<Rightarrow> int \<Rightarrow> char \<Rightarrow> bool" where
  "utf8_between lo hi c = (lo \<le> (of_char c :: int) \<and> (of_char c :: int) \<le> hi)"

text \<open>
  The size \<^verbatim>\<open>utf8.DecodeRuneInString\<close> returns: \<open>Some n\<close> for a rune of \<open>n\<close> bytes
  (\<open>Some 0\<close> for the empty string), \<open>None\<close> where it returns \<^verbatim>\<open>(RuneError, 1)\<close> for
  bytes that are no valid sequence.
\<close>

definition utf8_DecodeRune_size :: "string \<Rightarrow> nat option" where
  "utf8_DecodeRune_size s =
     (case s of
        [] \<Rightarrow> Some 0
      | s0 # t0 \<Rightarrow>
          (case utf8_first s0 of
             None \<Rightarrow> None
           | Some (sz, lo, hi) \<Rightarrow>
               if sz = 1 then Some 1
               else if length s < sz then None
               else
                 (case t0 of
                    [] \<Rightarrow> None
                  | s1 # t1 \<Rightarrow>
                      if \<not> utf8_between lo hi s1 then None
                      else if sz \<le> 2 then Some 2
                      else
                        (case t1 of
                           [] \<Rightarrow> None
                         | s2 # t2 \<Rightarrow>
                             if \<not> utf8_between 0x80 0xBF s2 then None
                             else if sz \<le> 3 then Some 3
                             else
                               (case t2 of
                                  [] \<Rightarrow> None
                                | s3 # t3 \<Rightarrow>
                                    if \<not> utf8_between 0x80 0xBF s3 then None else Some 4)))))"

text \<open>
  The loops over a string, as recursion over its bytes: the first argument counts the
  bytes of the current rune that are still to be passed over (\<^verbatim>\<open>i += size\<close>).
  \<open>json_string s\<close> is the string read back after \<open>s\<close> was written, and
  \<open>utf8_ValidString\<close> is \<^verbatim>\<open>utf8.ValidString\<close>.
\<close>

fun json_string_from :: "nat \<Rightarrow> string \<Rightarrow> string" where
  "json_string_from k [] = []"
| "json_string_from (Suc k) (c # s) = c # json_string_from k s"
| "json_string_from 0 (c # s) =
     (case utf8_DecodeRune_size (c # s) of
        None \<Rightarrow> CHR 0xEF # CHR 0xBF # CHR 0xBD # json_string_from 0 s
      | Some n \<Rightarrow> c # json_string_from (n - 1) s)"

definition json_string :: "string \<Rightarrow> string" where
  "json_string s = json_string_from 0 s"

fun utf8_valid_from :: "nat \<Rightarrow> string \<Rightarrow> bool" where
  "utf8_valid_from k [] = True"
| "utf8_valid_from (Suc k) (c # s) = utf8_valid_from k s"
| "utf8_valid_from 0 (c # s) =
     (case utf8_DecodeRune_size (c # s) of
        None \<Rightarrow> False
      | Some n \<Rightarrow> utf8_valid_from (n - 1) s)"

definition utf8_ValidString :: "string \<Rightarrow> bool" where
  "utf8_ValidString s = utf8_valid_from 0 s"

text \<open>The envelope and the sealed blob as they are read back: their string fields go
  through \<open>json_string\<close>, the integer and the byte slices (written in base64) come back as
  they were.\<close>

definition envelope_read_back :: "pqEnvelopeV1 \<Rightarrow> pqEnvelopeV1" where
  "envelope_read_back env =
     \<lparr>env_V = env_V env,
      env_SealedDEK_B64 = json_string (env_SealedDEK_B64 env),
      env_NonceB64 = json_string (env_NonceB64 env),
      env_CTB64 = json_string (env_CTB64 env),
      env_Label = json_string (env_Label env)\<rparr>"

definition blob_read_back :: "sealedBlobV1 \<Rightarrow> sealedBlobV1" where
  "blob_read_back sb =
     \<lparr>sb_V = sb_V sb, sb_Label = json_string (sb_Label sb), sb_Priv = sb_Priv sb, sb_Pub = sb_Pub sb\<rparr>"

text \<open>
  \<open>lib_faithful\<close>: what is unmarshalled is what was marshalled, read back as above; base64
  text is ASCII and decodes to what was encoded; the AEAD opens what it sealed under the
  same key, nonce and associated data. \<open>blob_faithful\<close>: the same for the sealed blob.
  \<open>tpm_unseals\<close>: the device gives back, on \<^verbatim>\<open>Load\<close> and \<^verbatim>\<open>Unseal\<close> under the primary
  key it creates for the owner password, the secret of a sealed object it created under
  that key.
\<close>

definition lib_faithful :: "lib \<Rightarrow> bool" where
  "lib_faithful L =
     ((\<forall>env b. json_MarshalIndent_envelope L env = Some b \<longrightarrow>
               json_Unmarshal_envelope L b = Some (envelope_read_back env)) \<and>
      (\<forall>p b. json_Marshal_payload L p = Some b \<longrightarrow> json_Unmarshal_payload L b = Some p) \<and>
      (\<forall>x. base64_DecodeString L (base64_EncodeToString L x) = Some x) \<and>
      (\<forall>x. list_all (\<lambda>c. (of_char c :: int) < 0x80) (base64_EncodeToString L x)) \<and>
      (\<forall>k n p a. length k = 32 \<and> length n = 24 \<longrightarrow> aead_Open L k n (aead_Seal L k n p a) a = Some p))"

definition blob_faithful ::
  "(sealedBlobV1 \<Rightarrow> byte list option) \<Rightarrow> (byte list \<Rightarrow> sealedBlobV1 option) \<Rightarrow> bool" where
  "blob_faithful marshal unmarshal =
     (\<forall>sb b. marshal sb = Some b \<longrightarrow> unmarshal b = Some (blob_read_back sb))"

definition tpm_unseals :: "tpm_conn \<Rightarrow> string \<Rightarrow> bool" where
  "tpm_unseals dev ownerAuth =
     (\<forall>parent secret privBlob pubBlob.
        tpm2_CreatePrimary dev ownerAuth = Inr parent \<and>
        tpm2_CreateKeyWithSensitive dev parent ownerAuth secret = Inr (privBlob, pubBlob) \<longrightarrow>
        (\<exists>h. tpm2_Load dev parent pubBlob privBlob = Inr h \<and>
             tpm2_Unseal dev h (pubBlob, privBlob) = Inr secret))"

section \<open>An instance of the libraries, for examples\<close>

text \<open>
  A small instance of the parameters, used where a statement is run on a concrete input:
  a self-delimiting encoding in place of JSON, the identity in place of base64, and an
  AEAD that stores key, nonce and associated data in front of the text.
\<close>

fun esc :: "byte list \<Rightarrow> byte list" where
  "esc [] = [0]"
| "esc (b # bs) = 1 # b # esc bs"

fun unesc :: "byte list \<Rightarrow> (byte list \<times> byte list) option" where
  "unesc [] = None"
| "unesc [t] = (if t = 0 then Some ([], []) else None)"
| "unesc (t # b # rest) =
     (if t = 0 then Some ([], b # rest)
      else (case unesc rest of None \<Rightarrow> None | Some (bs, r) \<Rightarrow> Some (b # bs, r)))"

definition char_of_byte :: "byte \<Rightarrow> char" where
  "char_of_byte b = char_of (unat b)"

definition demo_marshal_envelope :: "pqEnvelopeV1 \<Rightarrow> byte list option" where
  "demo_marshal_envelope env =
     (if 0 \<le> env_V env \<and> env_V env < 256
      then Some (word_of_int (env_V env) #
                 esc (map byte_of_char (env_SealedDEK_B64 env)) @
                 esc (map byte_of_char (env_NonceB64 env)) @
                 esc (map byte_of_char (env_CTB64 env)) @
                 esc (map byte_of_char (env_Label env)))
      else None)"

definition demo_unmarshal_envelope :: "byte list \<Rightarrow> pqEnvelopeV1 option" where
  "demo_unmarshal_envelope b =
     (case b of
        [] \<Rightarrow> None
      | v # r0 \<Rightarrow>
          (case unesc r0 of None \<Rightarrow> None | Some (f1, r1) \<Rightarrow>
          (case unesc r1 of None \<Rightarrow> None | Some (f2, r2) \<Rightarrow>
          (case unesc r2 of None \<Rightarrow> None | Some (f3, r3) \<Rightarrow>
          (case unesc r3 of None \<Rightarrow> None | Some (f4, r4) \<Rightarrow>
             if r4 \<noteq> [] then None
             else Some \<lparr>env_V = uint v,
                        env_SealedDEK_B64 = map char_of_byte f1,
                        env_NonceB64 = map char_of_byte f2,
                        env_CTB64 = map char_of_byte f3,
                        env_Label = map char_of_byte f4\<rparr>)))))"

definition demo_marshal_payload :: "pqPayloadV1 \<Rightarrow> byte list option" where
  "demo_marshal_payload p = Some (esc (pay_Pub p) @ esc (pay_Priv p))"

definition demo_unmarshal_payload :: "byte list \<Rightarrow> pqPayloadV1 option" where
  "demo_unmarshal_payload b =
     (case unesc b of None \<Rightarrow> None | Some (f1, r1) \<Rightarrow>
     (case unesc r1 of None \<Rightarrow> None | Some (f2, r2) \<Rightarrow>
        if r2 \<noteq> [] then None else Some \<lparr>pay_Pub = f1, pay_Priv = f2\<rparr>))"

definition demo_aead_Seal :: "byte list \<Rightarrow> byte list \<Rightarrow> byte list \<Rightarrow> byte list \<Rightarrow> byte list" where
  "demo_aead_Seal key nonce plaintext ad = esc key @ esc nonce @ esc ad @ plaintext"

definition demo_aead_Open :: "byte list \<Rightarrow> byte list \<Rightarrow> byte list \<Rightarrow> byte list \<Rightarrow> byte list option" where
  "demo_aead_Open key nonce ct ad =
     (case unesc ct of None \<Rightarrow> None | Some (k, r1) \<Rightarrow>
     (case unesc r1 of None \<Rightarrow> None | Some (n, r2) \<Rightarrow>
     (case unesc r2 of None \<Rightarrow> None | Some (a, p) \<Rightarrow>
        if k = key \<and> n = nonce \<and> a = ad then Some p else None)))"

definition demo_lib :: lib where
  "demo_lib =
     \<lparr>json_MarshalIndent_envelope = demo_marshal_envelope,
      json_Unmarshal_envelope = demo_unmarshal_envelope,
      json_Marshal_payload = demo_marshal_payload,
      json_Unmarshal_payload = demo_unmarshal_payload,
      base64_EncodeToString = map char_of_byte,
      base64_DecodeString = (\<lambda>s. Some (map byte_of_char s)),
      aead_Seal = demo_aead_Seal,
      aead_Open = demo_aead_Open,
      filepath_Abs = (\<lambda>p. Some p),
      filepath_Dir = (\<lambda>p. ''/var/lib/qa'')\<rparr>"

definition demo_marshal_blob :: "sealedBlobV1 \<Rightarrow> byte list option" where
  "demo_marshal_blob sb =
     (if 0 \<le> sb_V sb \<and> sb_V sb < 256
      then Some (word_of_int (sb_V sb) # esc (map byte_of_char (sb_Label sb)) @
                 esc (sb_Priv sb) @ esc (sb_Pub sb))
      else None)"

definition demo_unmarshal_blob :: "byte list \<Rightarrow> sealedBlobV1 option" where
  "demo_unmarshal_blob b =
     (case b of
        [] \<Rightarrow> None
      | v # r0 \<Rightarrow>
          (case unesc r0 of None \<Rightarrow> None | Some (f1, r1) \<Rightarrow>
          (case unesc r1 of None \<Rightarrow> None | Some (f2, r2) \<Rightarrow>
          (case unesc r2 of None \<Rightarrow> None | Some (f3, r3) \<Rightarrow>
             if r3 \<noteq> [] then None
             else Some \<lparr>sb_V = uint v, sb_Label = map char_of_byte f1,
                        sb_Priv = f2, sb_Pub = f3\<rparr>))))"

definition demo_sealer :: "tpm_world Sealer" where
  "demo_sealer = NewSealer demo_marshal_blob demo_unmarshal_blob ''''"

definition demo_scheme :: Scheme where
  "demo_scheme =
     \<lparr>GenerateKey = (\<lambda>w. (Inr (\<lparr>MarshalBinary = Inr [1, 2, 3]\<rparr>, \<lparr>MarshalBinary = Inr [4, 5, 6, 7]\<rparr>), w))\<rparr>"

definition demo_rt :: runtimeImpl where
  "demo_rt =
     \<lparr>rt_tpm = Some demo_client, rt_sealer = demo_sealer, rt_scheme = demo_scheme,
      rt_pqPath = ''/var/lib/qa/pqkeys.json.enc'', rt_pqLabel = ''qa'', rt_tpmPubB64 = ''''\<rparr>"

definition demo_world :: world where
  "demo_world =
     \<lparr>w_tpm = \<lparr>tpm_present = Some demo_conn, tpm_trace = []\<rparr>,
      files = (\<lambda>p. None),
      fs_fault = (\<lambda>op. None),
      entropy = (\<lambda>i. word_of_nat i),
      entropy_pos = 0,
      rand_fault = False\<rparr>"

text \<open>A state whose key file holds an envelope of version 2.\<close>

definition demo_world_v2 :: world where
  "demo_world_v2 =
     demo_world\<lparr>files := (\<lambda>p. if p = ''/var/lib/qa/pqkeys.json.enc''
                                then demo_marshal_envelope
                                       \<lparr>env_V = 2, env_SealedDEK_B64 = [], env_NonceB64 = [],
                                        env_CTB64 = [], env_Label = ''qa''\<rparr>
                                else None)\<rparr>"

text \<open>A state whose key file holds an envelope of version 1 written for another label,
  and a state in which some key file exists.\<close>

definition demo_world_label :: world where
  "demo_world_label =
     demo_world\<lparr>files := (\<lambda>p. if p = ''/var/lib/qa/pqkeys.json.enc''
                                then demo_marshal_envelope
                                       \<lparr>env_V = 1, env_SealedDEK_B64 = [], env_NonceB64 = [],
                                        env_CTB64 = [], env_Label = ''zz''\<rparr>
                                else None)\<rparr>"

definition demo_world_existing :: world where
  "demo_world_existing =
     demo_world\<lparr>files := (\<lambda>p. if p = ''/var/lib/qa/pqkeys.json.enc'' then Some [1, 2, 3] else None)\<rparr>"

text \<open>The state after the first \<^verbatim>\<open>EnsurePQKeypair\<close>, and that state with the key file
  moved to another path.\<close>

definition demo_world_written :: world where
  "demo_world_written = snd (EnsurePQKeypair demo_lib (Some demo_rt) demo_world)"

definition demo_world_moved :: world where
  "demo_world_moved =
     demo_world_written\<lparr>files := (\<lambda>p. if p = ''/home/qa/pqkeys.json.enc''
                                          then files demo_world_written ''/var/lib/qa/pqkeys.json.enc''
                                          else None)\<rparr>"

text \<open>
  A second instance, which does to strings what \<^verbatim>\<open>encoding/json\<close> does: the envelope
  and the sealed blob are written with their strings as they are read back, and the text
  that stands for base64 is ASCII (two letters \<^verbatim>\<open>a\<close> to \<^verbatim>\<open>p\<close> for a byte).
\<close>

definition hex_byte :: "byte \<Rightarrow> string" where
  "hex_byte b = [char_of (97 + uint b div 16), char_of (97 + uint b mod 16)]"

definition hex_EncodeToString :: "byte list \<Rightarrow> string" where
  "hex_EncodeToString x = concat (map hex_byte x)"

definition hex_val :: "char \<Rightarrow> int option" where
  "hex_val c = (if 97 \<le> (of_char c :: int) \<and> (of_char c :: int) < 113 then Some (of_char c - 97) else None)"

fun hex_DecodeString :: "string \<Rightarrow> byte list option" where
  "hex_DecodeString [] = Some []"
| "hex_DecodeString [c] = None"
| "hex_DecodeString (c # d # s) =
     (case (hex_val c, hex_val d, hex_DecodeString s) of
        (Some h, Some l, Some bs) \<Rightarrow> Some (word_of_int (h * 16 + l) # bs)
      | _ \<Rightarrow> None)"

definition sample_lib :: lib where
  "sample_lib =
     \<lparr>json_MarshalIndent_envelope = (\<lambda>env. demo_marshal_envelope (envelope_read_back env)),
      json_Unmarshal_envelope = demo_unmarshal_envelope,
      json_Marshal_payload = demo_marshal_payload,
      json_Unmarshal_payload = demo_unmarshal_payload,
      base64_EncodeToString = hex_EncodeToString,
      base64_DecodeString = hex_DecodeString,
      aead_Seal = demo_aead_Seal,
      aead_Open = demo_aead_Open,
      filepath_Abs = (\<lambda>p. Some p),
      filepath_Dir = (\<lambda>p. ''/var/lib/qa'')\<rparr>"

definition sample_marshal_blob :: "sealedBlobV1 \<Rightarrow> byte list option" where
  "sample_marshal_blob sb = demo_marshal_blob (blob_read_back sb)"

text \<open>The runtime \<^verbatim>\<open>New\<close> builds for the label \<^verbatim>\<open>qa\<close>, and the one for a label that is
  the single byte \<^verbatim>\<open>0xFF\<close>; the sealer is the one \<^verbatim>\<open>NewSealer\<close> returns.\<close>

definition sample_rt :: runtimeImpl where
  "sample_rt =
     \<lparr>rt_tpm = Some demo_client,
      rt_sealer = NewSealer sample_marshal_blob demo_unmarshal_blob '''',
      rt_scheme = demo_scheme,
      rt_pqPath = ''/var/lib/qa/pqkeys.json.enc'', rt_pqLabel = ''qa'', rt_tpmPubB64 = ''''\<rparr>"

definition sample_rt_ff :: runtimeImpl where
  "sample_rt_ff = sample_rt\<lparr>rt_pqLabel := [CHR 0xFF]\<rparr>"

section \<open>Properties of the parser\<close>

lemma line_at_Returns:
  "line_at lines i k = Returns v \<Longrightarrow> i < length lines \<and> k (lines ! i) = Returns v"
  by (auto simp: line_at_def split: if_splits)

lemma labelled_value:
  "labelled lines i pre mk k = Returns (Inr p) \<Longrightarrow>
     i < length lines \<and> (\<exists>x. k x = Returns (Inr p))"
  by (auto simp: labelled_def dest!: line_at_Returns split: if_splits)

lemma labelled_not_count:
  assumes "\<And>x. k x \<noteq> Returns (Inl (UnexpectedLineCount n))"
    and "\<And>l. mk l \<noteq> UnexpectedLineCount n"
  shows "labelled lines i pre mk k \<noteq> Returns (Inl (UnexpectedLineCount n))"
  using assms by (auto simp: labelled_def line_at_def)

text \<open>No input makes the parser return a parsed value: past the count test the list has
  eight lines, and the last labelled line is read at index 8.\<close>

lemma ParseCanonicalString_no_value: "ParseCanonicalString s \<noteq> Returns (Inr p)"
proof
  assume a: "ParseCanonicalString s = Returns (Inr p)"
  define lines where "lines = strings_Split (strings_TrimSpace s) CHR 0x0A"
  have len: "length lines = 8"
    using a unfolding ParseCanonicalString_def lines_def [symmetric] Let_def
    by (auto split: if_splits)
  from a len have "8 < length lines"
    unfolding ParseCanonicalString_def lines_def [symmetric] Let_def
    by (auto dest!: line_at_Returns labelled_value split: if_splits sum.splits)
  with len show False by simp
qed

lemma case_sum_neq:
  "(\<And>e. f e \<noteq> R) \<Longrightarrow> (\<And>v. g v \<noteq> R) \<Longrightarrow>
     (case x of Inl e \<Rightarrow> f e | Inr v \<Rightarrow> g v) \<noteq> R"
  by (cases x) auto

text \<open>
  C2 (the line count the parser requires). The count the code tests is 8, not 9: the
  line-count error is returned exactly when the trimmed input does not split into 8 lines.
  So the nine-line canonical string is rejected with that error, and an eight-line input
  passes the test.
\<close>

theorem ParseCanonicalString_count_test:
  "(ParseCanonicalString s = Returns (Inl (UnexpectedLineCount n))) =
     (length (strings_Split (strings_TrimSpace s) CHR 0x0A) \<noteq> 8 \<and>
      n = length (strings_Split (strings_TrimSpace s) CHR 0x0A))"
proof -
  define lines where "lines = strings_Split (strings_TrimSpace s) CHR 0x0A"
  show ?thesis
  proof (cases "length lines = 8")
    case False
    then show ?thesis
      unfolding ParseCanonicalString_def lines_def [symmetric] Let_def by auto
  next
    case True
    have "ParseCanonicalString s \<noteq> Returns (Inl (UnexpectedLineCount n))"
      unfolding ParseCanonicalString_def lines_def [symmetric] Let_def using True
      apply (simp add: line_at_def)
      apply (intro labelled_not_count case_sum_neq)
      apply simp_all
      done
    with True show ?thesis by (simp add: lines_def)
  qed
qed

lemma nine_lines_rejected:
  "ParseCanonicalString nine_lines = Returns (Inl (UnexpectedLineCount 9))"
  unfolding nine_lines_def by code_simp

text \<open>
  C4 (the parser returns a value or an error and never crashes). An input of eight lines
  whose labelled lines carry their prefixes passes the count test and every prefix test,
  and the read of \<^verbatim>\<open>lines[8]\<close> is out of range: the call panics.
\<close>

theorem ParseCanonicalString_eight_lines_panics:
  "ParseCanonicalString eight_lines = Panics"
  unfolding eight_lines_def by code_simp
section \<open>Properties of the backend host normalization\<close>

subsection \<open>Strings without white space, separators or escapes\<close>

lemma space_len_printable: "printable a \<Longrightarrow> space_len (a # t) = 0"
proof -
  assume p: "printable a"
  then have a: "\<not> asciiSpace a" "a \<noteq> CHR 0xC2" "a \<noteq> CHR 0xE1" "a \<noteq> CHR 0xE2" "a \<noteq> CHR 0xE3"
    by (auto simp: printable_def asciiSpace_def)
  show ?thesis
  proof (cases t)
    case Nil
    with a show ?thesis by simp
  next
    case (Cons b t')
    with a show ?thesis by (cases t') simp_all
  qed
qed

lemma trim_left_space_printable: "printable a \<Longrightarrow> trim_left_space (a # t) = a # t"
  by (simp add: space_len_printable)

lemma trim_right_space_printable: "list_all printable s \<Longrightarrow> trim_right_space s = s"
  by (induction s) (simp_all add: space_len_printable)

lemma TrimSpace_printable: "list_all printable s \<Longrightarrow> strings_TrimSpace s = s"
proof (cases s)
  case Nil
  then show ?thesis by (simp add: strings_TrimSpace_def)
next
  case (Cons a t)
  assume p: "list_all printable s"
  with Cons have "trim_left_space s = s" by (simp add: space_len_printable)
  with p show ?thesis by (simp add: strings_TrimSpace_def trim_right_space_printable)
qed

lemma host_char_printable: "host_char c \<Longrightarrow> printable c"
  by (auto simp: host_char_def printable_def is_alpha_def is_digit_def)

lemma is_digit_printable: "is_digit c \<Longrightarrow> printable c"
  by (auto simp: printable_def is_digit_def)

lemma Index_scheme_sep_None: "CHR ''/'' \<notin> set s \<Longrightarrow> strings_Index s ''://'' = None"
proof (induction s)
  case Nil
  show ?case by simp
next
  case (Cons c s)
  have t: "take (length ''://'') (c # s) \<noteq> ''://''"
  proof
    assume e: "take (length ''://'') (c # s) = ''://''"
    have "CHR ''/'' \<in> set (take (length ''://'') (c # s))" by (subst e) simp
    then have "CHR ''/'' \<in> set (c # s)" by (rule in_set_takeD)
    with Cons.prems show False by simp
  qed
  from Cons have IH: "strings_Index s ''://'' = None" by simp
  show ?case by (subst strings_Index.simps) (simp only: t if_False IH option.map)
qed

lemma cut_first_None: "c \<notin> set s \<Longrightarrow> cut_first c s = None"
  by (simp add: cut_first_def)

lemma cut_last_None: "c \<notin> set s \<Longrightarrow> cut_last c s = None"
  by (simp add: cut_last_def)

lemma takeWhile_neq_append: "c \<notin> set a \<Longrightarrow> takeWhile (\<lambda>x. x \<noteq> c) (a @ c # b) = a"
  by (induction a) auto

lemma dropWhile_neq_append: "c \<notin> set a \<Longrightarrow> dropWhile (\<lambda>x. x \<noteq> c) (a @ c # b) = c # b"
  by (induction a) auto

lemma takeWhile_neq_id: "c \<notin> set a \<Longrightarrow> takeWhile (\<lambda>x. x \<noteq> c) a = a"
  by (induction a) auto

lemma dropWhile_neq_Nil: "c \<notin> set a \<Longrightarrow> dropWhile (\<lambda>x. x \<noteq> c) a = []"
  by (induction a) auto

lemma cut_first_append: "c \<notin> set a \<Longrightarrow> cut_first c (a @ c # b) = Some (a, b)"
  by (simp add: cut_first_def takeWhile_neq_append dropWhile_neq_append)

lemma cut_last_append: "c \<notin> set b \<Longrightarrow> cut_last c (a @ c # b) = Some (a, b)"
proof -
  assume n: "c \<notin> set b"
  then have n': "c \<notin> set (rev b)" by simp
  have r: "rev (a @ c # b) = rev b @ c # rev a" by simp
  show ?thesis
    unfolding cut_last_def r
    using takeWhile_neq_append [OF n', of "rev a"] dropWhile_neq_append [OF n', of "rev a"]
    by simp
qed

lemma cut_first_SomeD:
  assumes "cut_first c s = Some (a, b)"
  shows "s = a @ c # b \<and> c \<notin> set a"
proof -
  from assms have in_s: "c \<in> set s" and a: "a = takeWhile (\<lambda>x. x \<noteq> c) s"
    and b: "b = tl (dropWhile (\<lambda>x. x \<noteq> c) s)"
    by (auto simp: cut_first_def split: if_splits)
  from in_s have "dropWhile (\<lambda>x. x \<noteq> c) s \<noteq> []" by (simp add: dropWhile_eq_Nil_conv)
  moreover have "hd (dropWhile (\<lambda>x. x \<noteq> c) s) = c"
    using hd_dropWhile [OF calculation] by simp
  ultimately have "dropWhile (\<lambda>x. x \<noteq> c) s = c # b" using b by (cases "dropWhile (\<lambda>x. x \<noteq> c) s") simp_all
  then have "s = a @ c # b" using a takeWhile_dropWhile_id [of "\<lambda>x. x \<noteq> c" s] by simp
  moreover have "c \<notin> set a" using a by (auto dest: set_takeWhileD)
  ultimately show ?thesis by simp
qed


subsection \<open>Parsing a plain host\<close>

lemma hp_char_facts:
  "\<not> hp_char CHR ''#''" "\<not> hp_char CHR ''?''" "\<not> hp_char CHR ''/''" "\<not> hp_char CHR ''@''"
  "\<not> hp_char CHR ''[''" "\<not> hp_char CHR ''%''" "\<not> hp_char CHR ''+''" "\<not> hp_char CHR '']''"
  by (simp_all add: hp_char_def host_char_def is_alpha_def is_digit_def)

lemma hp_char_notin:
  assumes "list_all hp_char s" and "\<not> hp_char c"
  shows "c \<notin> set s"
  using assms by (auto simp: list_all_iff)

lemma hp_char_printable: "hp_char c \<Longrightarrow> printable c"
  unfolding hp_char_def
proof (erule disjE)
  show "host_char c \<Longrightarrow> printable c" by (rule host_char_printable)
  show "c = CHR '':'' \<Longrightarrow> printable c" by (simp add: printable_def)
qed

lemma hp_char_no_escape: "hp_char c \<Longrightarrow> \<not> shouldEscape_host c"
  by (auto simp: hp_char_def host_char_def shouldEscape_host_def)

lemma unescape_host_plain: "list_all hp_char s \<Longrightarrow> unescape encodeHost s = Inr s"
proof (induction s)
  case Nil
  show ?case by simp
next
  case (Cons c s)
  then have c: "hp_char c" and IH: "unescape encodeHost s = Inr s" by simp_all
  from c have "c \<noteq> CHR ''%''" "c \<noteq> CHR ''+''" using hp_char_facts by auto
  with c IH show ?case by (simp add: hp_char_no_escape)
qed

lemma getScheme_http: "getScheme (''http://'' @ x) = Inr (''http'', ''//'' @ x)"
  by (simp add: getScheme_def is_alpha_def is_digit_def)

lemma not_ctl: "list_all hp_char s \<Longrightarrow> \<not> stringContainsCTLByte (''http://'' @ s)"
  by (auto simp: stringContainsCTLByte_def list_ex_iff list_all_iff dest!: hp_char_printable
        simp: printable_def)

lemma parseHost_plain:
  assumes hp: "list_all hp_char s"
    and port: "\<And>h p. cut_last CHR '':'' s = Some (h, p) \<Longrightarrow> list_all is_digit p"
  shows "parseHost ipl s = Inr s"
proof -
  have nb: "CHR ''['' \<notin> set s" using hp hp_char_facts by (auto simp: list_all_iff)
  show ?thesis
  proof (cases "cut_last CHR '':'' s")
    case None
    then show ?thesis using nb by (simp add: parseHost_def parseHost_regname_def unescape_host_plain [OF hp])
  next
    case (Some hpair)
    obtain h p where hpair: "hpair = (h, p)" by (cases hpair)
    from port [of h p] Some hpair have "list_all is_digit p" by simp
    then show ?thesis
      using nb Some hpair
      by (simp add: parseHost_def parseHost_regname_def validOptionalPort_def unescape_host_plain [OF hp])
  qed
qed

lemma url_Parse_http_plain:
  assumes hp: "list_all hp_char s"
    and port: "\<And>h p. cut_last CHR '':'' s = Some (h, p) \<Longrightarrow> list_all is_digit p"
  shows "url_Parse ipl (''http://'' @ s) = Inr (empty_URL\<lparr>u_Scheme := ''http'', u_Host := s\<rparr>)"
proof -
  have n: "CHR ''#'' \<notin> set s" "CHR ''?'' \<notin> set s" "CHR ''/'' \<notin> set s" "CHR ''@'' \<notin> set s"
    using hp hp_char_facts by (auto simp: list_all_iff)
  have frag: "cut_first CHR ''#'' (''http://'' @ s) = None"
    using n by (simp add: cut_first_def)
  have q: "cut_first CHR ''?'' (''//'' @ s) = None" using n by (simp add: cut_first_def)
  have cnt: "strings_Count (''//'' @ s) CHR ''?'' = 0"
    using n by (auto simp: strings_Count_def filter_empty_conv)
  have auth: "parseAuthority ipl s = Inr (None, s)"
    using n by (simp add: parseAuthority_def cut_last_None parseHost_plain [OF hp port])
  have tw: "takeWhile (\<lambda>x. x \<noteq> CHR ''/'') s = s" "dropWhile (\<lambda>x. x \<noteq> CHR ''/'') s = []"
    using n by (simp_all add: takeWhile_neq_id dropWhile_neq_Nil)
  have low: "strings_ToLower ''http'' = ''http''" by (simp add: strings_ToLower_def lower_char_def)
  have p: "url_parse ipl (''http://'' @ s) = Inr (empty_URL\<lparr>u_Scheme := ''http'', u_Host := s\<rparr>)"
    using not_ctl [OF hp]
    by (simp add: url_parse_def getScheme_http [simplified] low [simplified] cnt [simplified]
          q [simplified] strings_HasPrefix_def strings_HasSuffix_def
          Let_def auth tw empty_URL_def)
  show ?thesis by (simp add: url_Parse_def frag [simplified] p [simplified] Let_def)
qed


subsection \<open>Lower case\<close>

lemma of_char_lower_upper:
  assumes "(65::int) \<le> of_char c" and "(of_char c :: int) \<le> 90"
  shows "(of_char (lower_char c) :: int) = of_char c + 32"
proof -
  have "(of_char c + 32 :: int) mod 256 = of_char c + 32" using assms by simp
  with assms show ?thesis by (simp add: lower_char_def)
qed

lemma lower_char_idem: "lower_char (lower_char c) = lower_char c"
proof (cases "(65::int) \<le> of_char c \<and> (of_char c :: int) \<le> 90")
  case True
  then have "(of_char (lower_char c) :: int) = of_char c + 32" by (simp add: of_char_lower_upper)
  with True have neg: "\<not> ((65::int) \<le> of_char (lower_char c) \<and> (of_char (lower_char c) :: int) \<le> 90)" by simp
  show ?thesis by (subst lower_char_def) (rule if_not_P [OF neg])
next
  case False
  have "lower_char c = c" unfolding lower_char_def by (rule if_not_P [OF False])
  then show ?thesis by simp
qed

lemma host_char_lower: "host_char c \<Longrightarrow> host_char (lower_char c)"
proof (cases "(65::int) \<le> of_char c \<and> (of_char c :: int) \<le> 90")
  case True
  then have "(of_char (lower_char c) :: int) = of_char c + 32" by (simp add: of_char_lower_upper)
  with True show ?thesis by (simp add: host_char_def is_alpha_def)
next
  case False
  assume h: "host_char c"
  have "lower_char c = c" unfolding lower_char_def by (rule if_not_P [OF False])
  with h show ?thesis by simp
qed

lemma ToLower_idem: "strings_ToLower (strings_ToLower s) = strings_ToLower s"
  by (simp add: strings_ToLower_def lower_char_idem)

lemma ToLower_host: "list_all host_char s \<Longrightarrow> list_all host_char (strings_ToLower s)"
  by (simp add: strings_ToLower_def list_all_iff host_char_lower)

lemma ToLower_Nil_iff: "strings_ToLower s = [] \<longleftrightarrow> s = []"
  by (simp add: strings_ToLower_def)

subsection \<open>NormalizeBackendHost on a plain host and port\<close>

lemma host_char_hp: "list_all host_char s \<Longrightarrow> list_all hp_char s"
  by (simp add: list_all_iff hp_char_def)

lemma digit_hp: "list_all is_digit s \<Longrightarrow> list_all hp_char s"
  by (simp add: list_all_iff hp_char_def host_char_def)

lemma host_no_colon: "list_all host_char s \<Longrightarrow> CHR '':'' \<notin> set s"
  by (auto simp: list_all_iff host_char_def is_alpha_def is_digit_def)

lemma digit_no_colon: "list_all is_digit s \<Longrightarrow> CHR '':'' \<notin> set s"
  by (auto simp: list_all_iff is_digit_def)

lemma host_no_bracket: "list_all host_char s \<Longrightarrow> \<not> strings_HasPrefix s ''[''"
  by (cases s) (auto simp: strings_HasPrefix_def host_char_def is_alpha_def is_digit_def)

lemma TrimSpace_Nil: "strings_TrimSpace [] = []"
  by (simp add: strings_TrimSpace_def)

lemma TrimSpace_hp: "list_all hp_char s \<Longrightarrow> strings_TrimSpace s = s"
  by (rule TrimSpace_printable) (simp add: list_all_iff hp_char_printable)

lemma Contains_hp: "list_all hp_char s \<Longrightarrow> \<not> strings_Contains s ''://''"
proof -
  assume "list_all hp_char s"
  then have "CHR ''/'' \<notin> set s" using hp_char_facts by (auto simp: list_all_iff)
  then show ?thesis by (simp add: strings_Contains_def Index_scheme_sep_None)
qed

lemma NormalizeBackendHost_host:
  assumes ne: "host \<noteq> []" and hc: "list_all host_char host"
  shows "NormalizeBackendHost ipl host = strings_ToLower host"
proof -
  have hp: "list_all hp_char host" using hc by (rule host_char_hp)
  have cl: "cut_last CHR '':'' host = None" using host_no_colon [OF hc] by (rule cut_last_None)
  have parse: "url_Parse ipl (''http://'' @ host) = Inr (empty_URL\<lparr>u_Scheme := ''http'', u_Host := host\<rparr>)"
    by (rule url_Parse_http_plain [OF hp]) (simp add: cl)
  have split: "url_splitHostPort host = (host, [])"
    using host_no_bracket [OF hc] by (simp add: url_splitHostPort_def cl)
  show ?thesis
    using ne Contains_hp [OF hp]
    by (simp add: NormalizeBackendHost_def TrimSpace_hp [OF hp] parse [simplified] Let_def URL_Hostname_def
          URL_Port_def split TrimSpace_Nil strip_default_port_def host_port_result_def
          ToLower_Nil_iff TrimSpace_hp [OF host_char_hp [OF hc]])
qed

lemma NormalizeBackendHost_hostport:
  assumes ne: "host \<noteq> []" and hc: "list_all host_char host" and pd: "list_all is_digit port"
  shows "NormalizeBackendHost ipl (host @ CHR '':'' # port) =
           (if strip_default_port port = [] then strings_ToLower host
            else strings_ToLower host @ CHR '':'' # port)"
proof -
  let ?s = "host @ CHR '':'' # port"
  have hp: "list_all hp_char ?s"
    using host_char_hp [OF hc] digit_hp [OF pd] by (simp add: hp_char_def)
  have cl: "cut_last CHR '':'' ?s = Some (host, port)"
    using digit_no_colon [OF pd] by (rule cut_last_append)
  have parse: "url_Parse ipl (''http://'' @ ?s) = Inr (empty_URL\<lparr>u_Scheme := ''http'', u_Host := ?s\<rparr>)"
    by (rule url_Parse_http_plain [OF hp]) (simp add: cl pd)
  have split: "url_splitHostPort ?s = (host, port)"
    using host_no_bracket [OF hc] pd by (simp add: url_splitHostPort_def cl validOptionalPort_def)
  have tp: "strings_TrimSpace port = port"
    by (rule TrimSpace_hp [OF digit_hp [OF pd]])
  have nc: "CHR '':'' \<notin> set (strings_ToLower host)"
    using host_no_colon [OF ToLower_host [OF hc]] .
  have sne: "?s \<noteq> []" by simp
  have sp: "strip_default_port port \<noteq> [] \<Longrightarrow> strip_default_port port = port"
    by (simp add: strip_default_port_def split: if_splits)
  show ?thesis
    using ne Contains_hp [OF hp] nc sp
    by (simp add: NormalizeBackendHost_def TrimSpace_hp [OF hp] parse [simplified] Let_def URL_Hostname_def
          URL_Port_def split tp host_port_result_def ToLower_Nil_iff net_JoinHostPort_def
          TrimSpace_hp [OF host_char_hp [OF hc]])
qed

subsection \<open>Idempotence on plain inputs\<close>

text \<open>
  On a plain host with an optional port the first pass lower-cases the host and drops an
  empty or default port, and the second pass finds nothing more to change.
\<close>

lemma NormalizeBackendHost_idempotent_hostport:
  assumes "plain_hostport h"
  shows "NormalizeBackendHost ipl (NormalizeBackendHost ipl h) = NormalizeBackendHost ipl h"
proof (cases "cut_first CHR '':'' h")
  case None
  with assms have ne: "h \<noteq> []" and hc: "list_all host_char h"
    by (simp_all add: plain_hostport_def)
  have 1: "NormalizeBackendHost ipl h = strings_ToLower h"
    by (rule NormalizeBackendHost_host [OF ne hc])
  have "NormalizeBackendHost ipl (strings_ToLower h) = strings_ToLower (strings_ToLower h)"
    using ne by (intro NormalizeBackendHost_host ToLower_host [OF hc]) (simp add: ToLower_Nil_iff)
  with 1 show ?thesis by (simp add: ToLower_idem)
next
  case (Some hpair)
  obtain host port where hpair: "hpair = (host, port)" by (cases hpair)
  from Some hpair assms have ne: "host \<noteq> []" and hc: "list_all host_char host"
    and pd: "list_all is_digit port"
    by (simp_all add: plain_hostport_def)
  from Some hpair have h: "h = host @ CHR '':'' # port" using cut_first_SomeD by blast
  have lne: "strings_ToLower host \<noteq> []" using ne by (simp add: ToLower_Nil_iff)
  have lhc: "list_all host_char (strings_ToLower host)" by (rule ToLower_host [OF hc])
  show ?thesis
  proof (cases "strip_default_port port = []")
    case True
    then have 1: "NormalizeBackendHost ipl h = strings_ToLower host"
      by (simp add: h NormalizeBackendHost_hostport [OF ne hc pd])
    have "NormalizeBackendHost ipl (strings_ToLower host) = strings_ToLower (strings_ToLower host)"
      by (rule NormalizeBackendHost_host [OF lne lhc])
    with 1 show ?thesis by (simp add: ToLower_idem)
  next
    case False
    then have 1: "NormalizeBackendHost ipl h = strings_ToLower host @ CHR '':'' # port"
      by (simp add: h NormalizeBackendHost_hostport [OF ne hc pd])
    have "NormalizeBackendHost ipl (strings_ToLower host @ CHR '':'' # port) =
            strings_ToLower (strings_ToLower host) @ CHR '':'' # port"
      using False by (simp add: NormalizeBackendHost_hostport [OF lne lhc pd])
    with 1 show ?thesis by (simp add: ToLower_idem)
  qed
qed

text \<open>
  A URL with a scheme of letters, a plain host with optional port and a plain path is
  normalized to what its host and port alone are normalized to.
\<close>

lemma Index_SomeD:
  "strings_Index s sub = Some i \<Longrightarrow> s = take i s @ sub @ drop (i + length sub) s"
proof (induction s arbitrary: i)
  case Nil
  then show ?case by (simp split: if_splits)
next
  case (Cons c s)
  show ?case
  proof (cases "take (length sub) (c # s) = sub")
    case True
    with Cons.prems have "i = 0" by simp
    with True show ?thesis by (metis add_0 append_Nil append_take_drop_id take0)
  next
    case False
    with Cons.prems obtain j where j: "strings_Index s sub = Some j" and i: "i = Suc j"
      by auto
    from Cons.IH [OF j] have "s = take j s @ sub @ drop (j + length sub) s" .
    then show ?thesis using i by simp
  qed
qed

lemma Index_prefix: "take (length sub) s = sub \<Longrightarrow> strings_Index s sub = Some 0"
  by (cases s) auto

lemma Index_append_sub: "strings_Index (a @ sub @ b) sub \<noteq> None"
proof (induction a)
  case Nil
  have "strings_Index (sub @ b) sub = Some 0" by (rule Index_prefix) simp
  then show ?case by simp
next
  case (Cons c a)
  then show ?case by simp
qed

lemma getScheme_loop_alpha:
  assumes "list_all is_alpha sch" and "length pre + length sch > 0"
  shows "getScheme_loop (length pre) (pre @ sch @ CHR '':'' # rest) (sch @ CHR '':'' # rest) =
           Inr (pre @ sch, rest)"
  using assms
proof (induction sch arbitrary: pre)
  case Nil
  then show ?case by (simp add: is_alpha_def is_digit_def)
next
  case (Cons c sch)
  from Cons.prems have c: "is_alpha c" and r: "list_all is_alpha sch" by simp_all
  have "getScheme_loop (length (pre @ [c])) ((pre @ [c]) @ sch @ CHR '':'' # rest) (sch @ CHR '':'' # rest) =
          Inr ((pre @ [c]) @ sch, rest)"
    by (rule Cons.IH [OF r]) simp
  with c show ?case by simp
qed

lemma getScheme_alpha:
  assumes "list_all is_alpha sch" and "sch \<noteq> []"
  shows "getScheme (sch @ CHR '':'' # rest) = Inr (sch, rest)"
  using getScheme_loop_alpha [OF assms(1), of "[]" rest] assms(2) by (simp add: getScheme_def)


lemma is_alpha_printable: "is_alpha c \<Longrightarrow> printable c"
  by (auto simp: is_alpha_def printable_def)

lemma path_char_printable: "path_char c \<Longrightarrow> printable c"
  by (auto simp: path_char_def printable_def dest: host_char_printable)

lemma printable_colon_slash: "printable CHR '':''" "printable CHR ''/''"
  by (simp_all add: printable_def)

lemma not_ctl_printable: "list_all printable s \<Longrightarrow> \<not> stringContainsCTLByte s"
  by (auto simp: stringContainsCTLByte_def list_ex_iff list_all_iff printable_def)

lemma path_char_facts:
  "\<not> path_char CHR ''#''" "\<not> path_char CHR ''?''" "\<not> path_char CHR ''%''" "\<not> path_char CHR ''+''"
  "\<not> path_char CHR '':''"
  by (simp_all add: path_char_def host_char_def is_alpha_def is_digit_def)

lemma is_alpha_facts:
  "\<not> is_alpha CHR ''#''" "\<not> is_alpha CHR ''?''" "\<not> is_alpha CHR ''*''"
  by (simp_all add: is_alpha_def)

lemma unescape_path_plain: "list_all path_char s \<Longrightarrow> unescape encodePath s = Inr s"
proof (induction s)
  case Nil
  show ?case by simp
next
  case (Cons c s)
  then have c: "path_char c" and IH: "unescape encodePath s = Inr s" by simp_all
  from c have "c \<noteq> CHR ''%''" "c \<noteq> CHR ''+''" using path_char_facts by auto
  with IH show ?case by simp
qed

lemma takeWhile_slash:
  assumes "CHR ''/'' \<notin> set hp" and "path = [] \<or> hd path = CHR ''/''"
  shows "takeWhile (\<lambda>x. x \<noteq> CHR ''/'') (hp @ path) = hp \<and>
         dropWhile (\<lambda>x. x \<noteq> CHR ''/'') (hp @ path) = path"
proof (cases path)
  case Nil
  with assms show ?thesis by (simp add: takeWhile_neq_id dropWhile_neq_Nil)
next
  case (Cons c p)
  with assms have "path = CHR ''/'' # p" by simp
  with assms show ?thesis by (simp add: takeWhile_neq_append dropWhile_neq_append)
qed

lemma url_Parse_scheme_plain:
  assumes sch: "list_all is_alpha sch" "sch \<noteq> []"
    and hp: "list_all hp_char hp"
    and port: "\<And>h p. cut_last CHR '':'' hp = Some (h, p) \<Longrightarrow> list_all is_digit p"
    and path: "list_all path_char path" "path = [] \<or> hd path = CHR ''/''"
  shows "url_Parse ipl (sch @ ''://'' @ hp @ path) =
           Inr (empty_URL\<lparr>u_Scheme := strings_ToLower sch, u_Host := hp, u_Path := path\<rparr>)"
proof -
  let ?s = "sch @ ''://'' @ hp @ path"
  let ?rest = "''//'' @ hp @ path"
  have nh: "CHR ''#'' \<notin> set hp" "CHR ''?'' \<notin> set hp" "CHR ''/'' \<notin> set hp" "CHR ''@'' \<notin> set hp"
    using hp hp_char_facts by (auto simp: list_all_iff)
  have np: "CHR ''#'' \<notin> set path" "CHR ''?'' \<notin> set path"
    using path(1) path_char_facts by (auto simp: list_all_iff)
  have ns: "CHR ''#'' \<notin> set sch" "CHR ''?'' \<notin> set sch"
    using sch(1) is_alpha_facts by (auto simp: list_all_iff)
  have frag: "cut_first CHR ''#'' ?s = None"
    using nh np ns by (simp add: cut_first_def)
  have pr: "list_all printable ?s"
    using sch(1) hp path(1)
    by (auto simp: list_all_iff printable_colon_slash
          intro: is_alpha_printable hp_char_printable path_char_printable)
  have ctl: "\<not> stringContainsCTLByte ?s" by (rule not_ctl_printable [OF pr])
  have star: "?s \<noteq> ''*''"
    using sch is_alpha_facts by (cases sch) auto
  have gs: "getScheme ?s = Inr (sch, ?rest)"
    using getScheme_alpha [OF sch, of ?rest] by simp
  have q: "cut_first CHR ''?'' ?rest = None" using nh np by (simp add: cut_first_def)
  have cnt: "strings_Count ?rest CHR ''?'' = 0"
    using nh np by (auto simp: strings_Count_def filter_empty_conv)
  have auth: "parseAuthority ipl hp = Inr (None, hp)"
    using nh by (simp add: parseAuthority_def cut_last_None parseHost_plain [OF hp port])
  have tw: "takeWhile (\<lambda>x. x \<noteq> CHR ''/'') (hp @ path) = hp"
    "dropWhile (\<lambda>x. x \<noteq> CHR ''/'') (hp @ path) = path"
    using takeWhile_slash [OF nh(3) path(2)] by simp_all
  have low: "strings_ToLower sch \<noteq> []" using sch(2) by (simp add: ToLower_Nil_iff)
  have p: "url_parse ipl ?s =
             Inr (empty_URL\<lparr>u_Scheme := strings_ToLower sch, u_Host := hp, u_Path := path\<rparr>)"
    using ctl star low
    by (simp add: url_parse_def gs [simplified] cnt [simplified] q [simplified] strings_HasPrefix_def
          strings_HasSuffix_def Let_def auth tw unescape_path_plain [OF path(1)] empty_URL_def)
  show ?thesis by (simp add: url_Parse_def frag [simplified] p [simplified] Let_def)
qed


lemma plain_hostport_hp:
  assumes "plain_hostport hp"
  shows "hp \<noteq> []" and "list_all hp_char hp"
    and "\<And>h p. cut_last CHR '':'' hp = Some (h, p) \<Longrightarrow> list_all is_digit p"
proof -
  have "hp \<noteq> [] \<and> list_all hp_char hp \<and>
        (\<forall>h p. cut_last CHR '':'' hp = Some (h, p) \<longrightarrow> list_all is_digit p)"
  proof (cases "cut_first CHR '':'' hp")
    case None
    with assms have ne: "hp \<noteq> []" and hc: "list_all host_char hp"
      by (simp_all add: plain_hostport_def)
    have "cut_last CHR '':'' hp = None" using host_no_colon [OF hc] by (rule cut_last_None)
    with ne host_char_hp [OF hc] show ?thesis by simp
  next
    case (Some hpair)
    obtain host port where hpair: "hpair = (host, port)" by (cases hpair)
    from Some hpair assms have ne: "host \<noteq> []" and hc: "list_all host_char host"
      and pd: "list_all is_digit port"
      by (simp_all add: plain_hostport_def)
    from Some hpair have h: "hp = host @ CHR '':'' # port" using cut_first_SomeD by blast
    have cl: "cut_last CHR '':'' hp = Some (host, port)"
      unfolding h using digit_no_colon [OF pd] by (rule cut_last_append)
    have "list_all hp_char hp"
      using host_char_hp [OF hc] digit_hp [OF pd] by (simp add: h hp_char_def)
    with ne pd cl show ?thesis by (simp add: h)
  qed
  then show "hp \<noteq> []" and "list_all hp_char hp"
    and "\<And>h p. cut_last CHR '':'' hp = Some (h, p) \<Longrightarrow> list_all is_digit p"
    by blast+
qed

lemma NormalizeBackendHost_of_parse:
  assumes "strings_TrimSpace s = s" and "s \<noteq> []"
    and "url_Parse ipl (if \<not> strings_Contains s ''://'' then ''http://'' @ s else s) = Inr u"
    and "u_Host u \<noteq> []"
  shows "NormalizeBackendHost ipl s =
           host_port_result
             (strings_ToLower (strings_TrimSpace (fst (url_splitHostPort (u_Host u)))))
             (strip_default_port (strings_TrimSpace (snd (url_splitHostPort (u_Host u)))))"
  using assms by (simp add: NormalizeBackendHost_def Let_def URL_Hostname_def URL_Port_def)

lemma NormalizeBackendHost_scheme_plain:
  assumes sch: "list_all is_alpha sch" "sch \<noteq> []"
    and hp: "plain_hostport hp"
    and path: "list_all path_char path" "path = [] \<or> hd path = CHR ''/''"
  shows "NormalizeBackendHost ipl (sch @ ''://'' @ hp @ path) = NormalizeBackendHost ipl hp"
proof -
  let ?s = "sch @ ''://'' @ hp @ path"
  note h = plain_hostport_hp [OF hp]
  have pr: "list_all printable ?s"
    using sch(1) h(2) path(1)
    by (auto simp: list_all_iff printable_colon_slash
          intro: is_alpha_printable hp_char_printable path_char_printable)
  have ts: "strings_TrimSpace ?s = ?s" by (rule TrimSpace_printable [OF pr])
  have ne: "?s \<noteq> []" using sch(2) by simp
  have ct: "strings_Contains ?s ''://''"
    using Index_append_sub [of sch "''://''" "hp @ path"] by (simp add: strings_Contains_def)
  have p1: "url_Parse ipl (if \<not> strings_Contains ?s ''://'' then ''http://'' @ ?s else ?s) =
              Inr (empty_URL\<lparr>u_Scheme := strings_ToLower sch, u_Host := hp, u_Path := path\<rparr>)"
    using ct url_Parse_scheme_plain [OF sch h(2) h(3) path] by simp
  have 1: "NormalizeBackendHost ipl ?s =
             host_port_result
               (strings_ToLower (strings_TrimSpace (fst (url_splitHostPort hp))))
               (strip_default_port (strings_TrimSpace (snd (url_splitHostPort hp))))"
    using NormalizeBackendHost_of_parse [OF ts ne p1] h(1) by simp
  have p2: "url_Parse ipl (if \<not> strings_Contains hp ''://'' then ''http://'' @ hp else hp) =
              Inr (empty_URL\<lparr>u_Scheme := ''http'', u_Host := hp\<rparr>)"
    using Contains_hp [OF h(2)] url_Parse_http_plain [OF h(2) h(3)] by simp
  have 2: "NormalizeBackendHost ipl hp =
             host_port_result
               (strings_ToLower (strings_TrimSpace (fst (url_splitHostPort hp))))
               (strip_default_port (strings_TrimSpace (snd (url_splitHostPort hp))))"
    using NormalizeBackendHost_of_parse [OF TrimSpace_hp [OF h(2)] h(1) p2] h(1) by simp
  from 1 2 show ?thesis by simp
qed

lemma plain_url_cases:
  assumes "plain_url h"
  shows "plain_hostport h \<or>
         (\<exists>sch hp path. h = sch @ ''://'' @ hp @ path \<and> list_all is_alpha sch \<and> sch \<noteq> [] \<and>
            plain_hostport hp \<and> list_all path_char path \<and> (path = [] \<or> hd path = CHR ''/''))"
proof (cases "strings_Index h ''://''")
  case None
  with assms show ?thesis by (simp add: plain_url_def)
next
  case (Some i)
  let ?rest = "drop (i + 3) h"
  let ?hp = "takeWhile (\<lambda>x. x \<noteq> CHR ''/'') ?rest"
  let ?path = "dropWhile (\<lambda>x. x \<noteq> CHR ''/'') ?rest"
  from Some assms have c: "take i h \<noteq> []" "list_all is_alpha (take i h)" "plain_hostport ?hp"
    "list_all path_char ?path"
    by (simp_all add: plain_url_def Let_def)
  have l: "length ''://'' = 3" by simp
  have "h = take i h @ ''://'' @ drop (i + length ''://'') h" by (rule Index_SomeD [OF Some])
  then have "h = take i h @ ''://'' @ ?rest" by (simp only: l)
  then have eq: "h = take i h @ ''://'' @ ?hp @ ?path" by (simp only: takeWhile_dropWhile_id)
  have hd: "?path = [] \<or> hd ?path = CHR ''/''"
    using hd_dropWhile [of "\<lambda>x. x \<noteq> CHR ''/''" ?rest] by auto
  from eq c hd show ?thesis by blast
qed

text \<open>
  On a plain host with an optional port (letters, digits, \<^verbatim>\<open>-\<close>, \<^verbatim>\<open>.\<close>,
  \<^verbatim>\<open>_\<close>, then possibly a colon and decimal digits), alone or after a scheme of letters
  and \<^verbatim>\<open>://\<close> and possibly followed by a path of the same characters and \<^verbatim>\<open>/\<close>,
  the normalization is idempotent, whatever the library does with IP literals: the first
  pass removes scheme and path, lower-cases the host and drops an empty or default port,
  and the second pass finds nothing more to change.
\<close>

lemma NormalizeBackendHost_idempotent_url:
  assumes "plain_url h"
  shows "NormalizeBackendHost ipl (NormalizeBackendHost ipl h) = NormalizeBackendHost ipl h"
proof -
  from plain_url_cases [OF assms] consider (a) "plain_hostport h"
    | (b) sch hp path where "h = sch @ ''://'' @ hp @ path" "list_all is_alpha sch" "sch \<noteq> []"
        "plain_hostport hp" "list_all path_char path" "path = [] \<or> hd path = CHR ''/''"
    by blast
  then show ?thesis
  proof cases
    case a
    then show ?thesis by (rule NormalizeBackendHost_idempotent_hostport)
  next
    case b
    have "NormalizeBackendHost ipl h = NormalizeBackendHost ipl hp"
      unfolding b(1) by (rule NormalizeBackendHost_scheme_plain [OF b(2-6)])
    with NormalizeBackendHost_idempotent_hostport [OF b(4), of ipl] show ?thesis by simp
  qed
qed

text \<open>
  An escaped percent sign in the host is decoded once per pass, for every value of the
  parameter.
\<close>

lemma NormalizeBackendHost_percent:
  "NormalizeBackendHost ipl ''a%2525'' = ''a%25''"
  "NormalizeBackendHost ipl ''a%25'' = ''a%''"
  by code_simp+

text \<open>
  A bracketed IPv6 address with a port that is kept comes back with its brackets,
  because \<^verbatim>\<open>net.JoinHostPort\<close> adds them, and is a fixed point. With a default port, or
  with none, the address is returned bare; the next pass takes what follows its last
  colon for a port. This holds for every library that accepts the literal
  \<^verbatim>\<open>[::1]\<close>, which is an IPv6 address, as it stands.
\<close>

lemma NormalizeBackendHost_ipv6_kept_port:
  assumes "ipl ''[::1]:1042'' = Inr ''[::1]:1042''"
  shows "NormalizeBackendHost ipl ''[::1]:1042'' = ''[::1]:1042''"
proof -
  let ?f = "\<lambda>h. if h = ''[::1]:1042'' then Inr ''[::1]:1042'' else ipl h"
  have e: "?f = ipl" using assms by (intro ext) simp
  have "NormalizeBackendHost ?f ''[::1]:1042'' = ''[::1]:1042''" by code_simp
  then show ?thesis unfolding e .
qed

lemma NormalizeBackendHost_ipv6_default_port:
  assumes "ipl ''[::1]:443'' = Inr ''[::1]:443''"
  shows "NormalizeBackendHost ipl ''[::1]:443'' = ''::1''"
    and "NormalizeBackendHost ipl ''::1'' = ''[:]:1''"
proof -
  let ?f = "\<lambda>h. if h = ''[::1]:443'' then Inr ''[::1]:443'' else ipl h"
  have e: "?f = ipl" using assms by (intro ext) simp
  have "NormalizeBackendHost ?f ''[::1]:443'' = ''::1''" by code_simp
  then show "NormalizeBackendHost ipl ''[::1]:443'' = ''::1''" unfolding e .
  show "NormalizeBackendHost ipl ''::1'' = ''[:]:1''" by code_simp
qed

lemma NormalizeBackendHost_ipv6_no_port:
  assumes "ipl ''[::1]'' = Inr ''[::1]''"
  shows "NormalizeBackendHost ipl ''[::1]'' = ''::1''"
proof -
  let ?f = "\<lambda>h. if h = ''[::1]'' then Inr ''[::1]'' else ipl h"
  have e: "?f = ipl" using assms by (intro ext) simp
  have "NormalizeBackendHost ?f ''[::1]'' = ''::1''" by code_simp
  then show ?thesis unfolding e .
qed

subsection \<open>The claims\<close>

text \<open>
  C7 (the normalization is idempotent) does not hold of the code. The input
  \<^verbatim>\<open>[::1]:443\<close>, an IPv6 address with a default port, is normalized to \<^verbatim>\<open>::1\<close>:
  the port is dropped and the host is returned without the brackets that
  \<^verbatim>\<open>net.JoinHostPort\<close> adds when a port is kept. The second pass reads \<^verbatim>\<open>::1\<close> as a
  host \<^verbatim>\<open>:\<close> with port \<^verbatim>\<open>1\<close> and returns \<^verbatim>\<open>[:]:1\<close>.
\<close>

theorem NormalizeBackendHost_ipv6_not_idempotent:
  "NormalizeBackendHost ipl_unchecked ''[::1]:443'' = ''::1'' \<and>
   NormalizeBackendHost ipl_unchecked (NormalizeBackendHost ipl_unchecked ''[::1]:443'') = ''[:]:1'' \<and>
   NormalizeBackendHost ipl_unchecked (NormalizeBackendHost ipl_unchecked ''[::1]:443'') \<noteq>
     NormalizeBackendHost ipl_unchecked ''[::1]:443''"
proof -
  have a: "ipl_unchecked ''[::1]:443'' = Inr ''[::1]:443''" by code_simp
  note 1 = NormalizeBackendHost_ipv6_default_port [of ipl_unchecked, OF a]
  show ?thesis by (simp add: 1)
qed

text \<open>
  C1 (parse after canonicalize). The request of the specification's scenario is
  canonicalized to the nine-line string, and the parser answers that string with the
  line-count error; no string at all is parsed into a value.
\<close>

theorem canonical_roundtrip_fails:
  "CanonicalString ipl example_input = Inr nine_lines \<and>
   ParseCanonicalString nine_lines = Returns (Inl (UnexpectedLineCount 9)) \<and>
   (\<forall>s p. ParseCanonicalString s \<noteq> Returns (Inr p))"
proof -
  have 1: "CanonicalString ipl example_input = Inr nine_lines"
    unfolding example_input_def nine_lines_def by code_simp
  from 1 nine_lines_rejected ParseCanonicalString_no_value show ?thesis by blast
qed

section \<open>Properties of the hardware signer and the sealer\<close>

declare be_bytes.simps [simp del]

lemma length_be_bytes_le: "0 \<le> n \<Longrightarrow> n < 256 ^ k \<Longrightarrow> length (be_bytes n) \<le> k"
proof (induction k arbitrary: n)
  case 0
  then show ?case by (simp add: be_bytes.simps)
next
  case (Suc k)
  show ?case
  proof (cases "n \<le> 0")
    case True
    then show ?thesis by (simp add: be_bytes.simps)
  next
    case False
    define m :: int where "m = 256 ^ k"
    have "n < 256 * m" using Suc.prems by (simp add: m_def)
    then have "n div 256 < m" by presburger
    moreover have "0 \<le> n div 256" using Suc.prems by simp
    ultimately have "length (be_bytes (n div 256)) \<le> k" using Suc.IH by (simp add: m_def)
    with False show ?thesis by (subst be_bytes.simps) simp
  qed
qed

lemma length_pad32: "length (pad32 n) = 32"
  by (cases n) (auto simp: pad32_def copy_at_def Let_def)

lemma pad32_zero_left_padded:
  assumes "\<bar>r\<bar> < 2 ^ 256"
  shows "pad32 (Some r) = replicate (32 - length (big_Bytes r)) 0 @ big_Bytes r"
proof -
  have "(2::int) ^ 256 = 256 ^ 32" by simp
  with assms have "length (be_bytes \<bar>r\<bar>) \<le> 32"
    by (intro length_be_bytes_le) simp_all
  then show ?thesis
    by (simp add: pad32_def big_Bytes_def copy_at_def Let_def)
qed

lemma client_Sign_Inr:
  assumes "client_Sign sha256 c msg = Inr raw"
  obtains cl dev sg ecc where "c = Some cl" and "c_rwc cl = Some dev"
    and "tpm2_Sign dev (c_handle cl) (sha256 msg) = Inr sg" and "sig_ECC sg = Some ecc"
    and "raw = pad32 (sig_R ecc) @ pad32 (sig_S ecc)"
  using assms
  by (auto simp: client_Sign_def Let_def split: option.splits sum.splits)

text \<open>
  C8 (the output of Sign). When \<^verbatim>\<open>Sign\<close> returns without error, the client is
  initialised, the device returned an ECC signature for the SHA-256 digest of the message,
  and the output has 64 bytes: its first 32 bytes are \<^verbatim>\<open>pad32(R)\<close> and its last 32
  are \<^verbatim>\<open>pad32(S)\<close>, which for an integer below \<open>2 ^ 256\<close> (every P-256 scalar) is its
  big-endian bytes with zeros in front. Nothing of a DER encoding is ever written.
\<close>

theorem client_Sign_raw_R_S:
  assumes "client_Sign sha256 c msg = Inr raw"
  shows "length raw = 64 \<and>
    (\<exists>cl dev sg ecc. c = Some cl \<and> c_rwc cl = Some dev \<and>
       tpm2_Sign dev (c_handle cl) (sha256 msg) = Inr sg \<and> sig_ECC sg = Some ecc \<and>
       take 32 raw = pad32 (sig_R ecc) \<and> drop 32 raw = pad32 (sig_S ecc) \<and>
       (\<forall>r. sig_R ecc = Some r \<and> \<bar>r\<bar> < 2 ^ 256 \<longrightarrow>
            take 32 raw = replicate (32 - length (big_Bytes r)) 0 @ big_Bytes r) \<and>
       (\<forall>s. sig_S ecc = Some s \<and> \<bar>s\<bar> < 2 ^ 256 \<longrightarrow>
            drop 32 raw = replicate (32 - length (big_Bytes s)) 0 @ big_Bytes s))"
proof -
  from assms obtain cl dev sg ecc where c: "c = Some cl" "c_rwc cl = Some dev"
    "tpm2_Sign dev (c_handle cl) (sha256 msg) = Inr sg" "sig_ECC sg = Some ecc"
    and raw: "raw = pad32 (sig_R ecc) @ pad32 (sig_S ecc)"
    by (rule client_Sign_Inr)
  have len: "length raw = 64" by (simp add: raw length_pad32)
  have t: "take 32 raw = pad32 (sig_R ecc)" by (simp add: raw length_pad32)
  have d: "drop 32 raw = pad32 (sig_S ecc)" by (simp add: raw length_pad32)
  have tr: "\<forall>r. sig_R ecc = Some r \<and> \<bar>r\<bar> < 2 ^ 256 \<longrightarrow>
            take 32 raw = replicate (32 - length (big_Bytes r)) 0 @ big_Bytes r"
    using t pad32_zero_left_padded by metis
  have ds: "\<forall>s. sig_S ecc = Some s \<and> \<bar>s\<bar> < 2 ^ 256 \<longrightarrow>
            drop 32 raw = replicate (32 - length (big_Bytes s)) 0 @ big_Bytes s"
    using d pad32_zero_left_padded by metis
  from c len t d tr ds show ?thesis by blast
qed

theorem client_Sign_raw_R_S_witness:
  "client_Sign (\<lambda>m. m) (Some demo_client) [1, 2, 3] =
     Inr (replicate 30 0 @ [1, 2] @ replicate 31 0 @ [7]) \<and>
   length (replicate 30 (0::byte) @ [1, 2] @ replicate 31 0 @ [7]) = 64"
proof -
  have e: "client_Sign (\<lambda>m. m) (Some demo_client) [1, 2, 3] =
             Inr (replicate 30 0 @ [1, 2] @ replicate 31 0 @ [7])"
    by code_simp
  from client_Sign_raw_R_S [OF e]
  have "length (replicate 30 (0::byte) @ [1, 2] @ replicate 31 0 @ [7]) = 64"
    by (rule conjunct1)
  with e show ?thesis by (rule conjI)
qed

text \<open>
  C10 (Seal of an empty secret, on the platforms other than darwin). For every label,
  owner password and state, \<^verbatim>\<open>Seal\<close> of a secret of length 0 returns the error
  "secret empty" and leaves the state as it was: nothing is added to the log of device
  operations, not even the opening of the device.
\<close>

theorem Seal_empty_secret:
  "tpm2Sealer_Seal marshal ownerAuth label [] w = (Inl SecretEmpty, w) \<and>
   Seal (NewSealer marshal unmarshal ownerAuth) label [] w = (Inl SecretEmpty, w) \<and>
   tpm_trace (snd (tpm2Sealer_Seal marshal ownerAuth label [] w)) = tpm_trace w"
  by (simp add: tpm2Sealer_Seal_def NewSealer_def)

section \<open>Properties of the sealed key file\<close>

subsection \<open>The state after each operation\<close>

lemma rand_Read_Inr:
  assumes "rand_Read n w = (Inr x, w1)"
  shows "length x = n \<and> files w1 = files w \<and> fs_fault w1 = fs_fault w \<and> w_tpm w1 = w_tpm w"
  using assms by (auto simp: rand_Read_def split: if_splits)

lemma with_tpm_result:
  assumes "with_tpm f w = (x, w1)"
  shows "\<exists>t'. f (w_tpm w) = (x, t') \<and> w1 = w\<lparr>w_tpm := t'\<rparr>"
  using assms by (auto simp: with_tpm_def split: prod.splits)

lemma os_Remove_frame:
  "fs_fault (snd (os_Remove p w)) = fs_fault w \<and> w_tpm (snd (os_Remove p w)) = w_tpm w \<and>
   (\<forall>q. q \<noteq> p \<longrightarrow> files (snd (os_Remove p w)) q = files w q)"
  by (auto simp: os_Remove_def split: option.splits)

lemma atomicWriteFile_None:
  assumes "atomicWriteFile L path data w = (None, w')"
  shows "files w' path = Some data \<and> fs_fault w' = fs_fault w \<and> w_tpm w' = w_tpm w"
  using assms os_Remove_frame [of "path @ ''.tmp''" w]
  by (auto simp: atomicWriteFile_def Let_def os_MkdirAll_def os_WriteFile_def os_Rename_def
           split: prod.splits option.splits)

text \<open>What a successful write leaves in the key file.\<close>

lemma write_success:
  assumes "writeEncryptedPQKeypair L r kp w = (Returns None, w')"
  obtains dek sealed t' payloadBytes nonce out where
    "length dek = 32" and "length nonce = 24"
    and "Seal (rt_sealer r) (rt_pqLabel r) dek (w_tpm w) = (Inr sealed, t')"
    and "json_Marshal_payload L \<lparr>pay_Pub = kp_Pub kp, pay_Priv = kp_Priv kp\<rparr> = Some payloadBytes"
    and "json_MarshalIndent_envelope L
           \<lparr>env_V = 1, env_SealedDEK_B64 = base64_EncodeToString L sealed,
            env_NonceB64 = base64_EncodeToString L nonce,
            env_CTB64 = base64_EncodeToString L (aead_Seal L dek nonce payloadBytes (aad L r)),
            env_Label = rt_pqLabel r\<rparr> = Some out"
    and "files w' (rt_pqPath r) = Some out" and "fs_fault w' = fs_fault w" and "w_tpm w' = t'"
proof -
  from assms obtain dek w1 where 1: "rand_Read 32 w = (Inr dek, w1)"
    by (auto simp: writeEncryptedPQKeypair_def split: prod.splits sum.splits)
  from assms 1 obtain sealed w2 where
    2: "with_tpm (Seal (rt_sealer r) (rt_pqLabel r) dek) w1 = (Inr sealed, w2)"
    by (auto simp: writeEncryptedPQKeypair_def split: prod.splits sum.splits)
  from assms 1 2 obtain payloadBytes where
    3: "json_Marshal_payload L \<lparr>pay_Pub = kp_Pub kp, pay_Priv = kp_Priv kp\<rparr> = Some payloadBytes"
    by (auto simp: writeEncryptedPQKeypair_def split: prod.splits sum.splits option.splits)
  have len: "length dek = 32" using rand_Read_Inr [OF 1] by simp
  then have 4: "chacha20poly1305_NewX dek = Some dek" by (simp add: chacha20poly1305_NewX_def)
  from assms 1 2 3 4 obtain nonce w3 where 5: "rand_Read 24 w2 = (Inr nonce, w3)"
    by (auto simp: writeEncryptedPQKeypair_def split: prod.splits sum.splits option.splits)
  have lenn: "length nonce = 24" using rand_Read_Inr [OF 5] by simp
  then have 6: "xchacha_Seal L dek nonce payloadBytes (aad L r) =
                  Returns (aead_Seal L dek nonce payloadBytes (aad L r))"
    by (simp add: xchacha_Seal_def)
  from assms 1 2 3 4 5 6 obtain out where
    7: "json_MarshalIndent_envelope L
           \<lparr>env_V = 1, env_SealedDEK_B64 = base64_EncodeToString L sealed,
            env_NonceB64 = base64_EncodeToString L nonce,
            env_CTB64 = base64_EncodeToString L (aead_Seal L dek nonce payloadBytes (aad L r)),
            env_Label = rt_pqLabel r\<rparr> = Some out"
    by (auto simp: writeEncryptedPQKeypair_def split: prod.splits sum.splits option.splits)
  from assms 1 2 3 4 5 6 7 have 8: "atomicWriteFile L (rt_pqPath r) out w3 = (None, w')"
    by (auto simp: writeEncryptedPQKeypair_def split: prod.splits sum.splits option.splits)
  from with_tpm_result [OF 2] obtain t' where
    s: "Seal (rt_sealer r) (rt_pqLabel r) dek (w_tpm w1) = (Inr sealed, t')"
    and w2: "w2 = w1\<lparr>w_tpm := t'\<rparr>"
    by blast
  have s': "Seal (rt_sealer r) (rt_pqLabel r) dek (w_tpm w) = (Inr sealed, t')"
    using s rand_Read_Inr [OF 1] by simp
  have f: "files w' (rt_pqPath r) = Some out" using atomicWriteFile_None [OF 8] by simp
  have ff: "fs_fault w' = fs_fault w"
    using atomicWriteFile_None [OF 8] rand_Read_Inr [OF 5] rand_Read_Inr [OF 1] w2 by simp
  have tt: "w_tpm w' = t'"
    using atomicWriteFile_None [OF 8] rand_Read_Inr [OF 5] w2 by simp
  from that [OF len lenn s' 3 7 f ff tt] show ?thesis .
qed

subsection \<open>The example instance satisfies what is assumed of the libraries\<close>

lemma unesc_esc: "unesc (esc xs @ r) = Some (xs, r)"
proof (induction xs)
  case Nil
  show ?case by (cases r) simp_all
next
  case (Cons b bs)
  then show ?case by simp
qed

lemma char_of_byte_of_char: "char_of_byte (byte_of_char c) = c"
  by (simp add: char_of_byte_def byte_of_char_def unat_of_nat)

lemma map_char_of_byte_of_char: "map char_of_byte (map byte_of_char s) = s"
  by (induction s) (simp_all add: char_of_byte_of_char)

lemma byte_of_char_of_byte: "byte_of_char (char_of_byte b) = b"
proof -
  have "unat b < 256" using unsigned_less [of b, where ?'a = nat] by simp
  then show ?thesis by (simp add: char_of_byte_def byte_of_char_def)
qed

lemma map_byte_of_char_of_byte: "map byte_of_char (map char_of_byte s) = s"
  by (induction s) (simp_all add: byte_of_char_of_byte)

lemma char_byte_comp: "char_of_byte \<circ> byte_of_char = id"
  by (rule ext) (simp add: char_of_byte_of_char)

lemma byte_char_comp: "byte_of_char \<circ> char_of_byte = id"
  by (rule ext) (simp add: byte_of_char_of_byte)

lemma bytes_of_string_inj: "bytes_of_string a = bytes_of_string b \<Longrightarrow> a = b"
  unfolding bytes_of_string_def by (metis map_char_of_byte_of_char)

lemma uint_word_of_int_byte: "0 \<le> v \<Longrightarrow> v < 256 \<Longrightarrow> uint (word_of_int v :: byte) = v"
  by (simp add: uint_word_of_int take_bit_eq_mod)

lemma demo_lib_roundtrip: "lib_roundtrip demo_lib"
  unfolding lib_roundtrip_def demo_lib_def
  by (auto simp: demo_marshal_envelope_def demo_unmarshal_envelope_def demo_marshal_payload_def
        demo_unmarshal_payload_def demo_aead_Seal_def demo_aead_Open_def unesc_esc
        unesc_esc [where r = "[]", simplified] char_byte_comp byte_char_comp
        uint_word_of_int_byte
      split: if_splits)

lemma demo_lib_binding: "aead_binding demo_lib"
  unfolding aead_binding_def demo_lib_def
  by (auto simp: demo_aead_Seal_def demo_aead_Open_def unesc_esc split: if_splits)

subsection \<open>Strings through JSON, the sealer, and a load after a write\<close>

lemma json_string_from_valid: "utf8_valid_from k s \<Longrightarrow> json_string_from k s = s"
proof (induction s arbitrary: k)
  case Nil
  show ?case by simp
next
  case (Cons c s)
  show ?case
  proof (cases k)
    case 0
    with Cons.prems obtain n where n: "utf8_DecodeRune_size (c # s) = Some n"
      and v: "utf8_valid_from (n - 1) s"
      by (auto split: option.splits)
    from Cons.IH [OF v] n 0 show ?thesis by simp
  next
    case (Suc j)
    with Cons show ?thesis by simp
  qed
qed

lemma json_string_valid: "utf8_ValidString s \<Longrightarrow> json_string s = s"
  unfolding utf8_ValidString_def json_string_def by (rule json_string_from_valid)

lemma json_string_ascii:
  "list_all (\<lambda>c. (of_char c :: int) < 0x80) s \<Longrightarrow> json_string_from 0 s = s"
  by (induction s) (simp_all add: utf8_DecodeRune_size_def utf8_first_def)

lemma json_string_Nil_iff: "json_string s = [] \<longleftrightarrow> s = []"
  by (cases s) (simp_all add: json_string_def split: option.splits)


lemma tpm2Sealer_Seal_Inr:
  assumes "tpm2Sealer_Seal marshal ownerAuth label secret t = (Inr blob, t')"
  obtains dev parent privBlob pubBlob where
    "tpm_present t = Some dev"
    and "tpm2_CreatePrimary dev ownerAuth = Inr parent"
    and "tpm2_CreateKeyWithSensitive dev parent ownerAuth secret = Inr (privBlob, pubBlob)"
    and "marshal \<lparr>sb_V = 1, sb_Label = label, sb_Priv = privBlob, sb_Pub = pubBlob\<rparr> = Some blob"
    and "tpm_present t' = tpm_present t"
  using assms
  by (auto simp: tpm2Sealer_Seal_def openTPM_def createPrimaryStorageKey_def tpm_log_def Let_def
           split: if_splits option.splits sum.splits prod.splits)

lemma tpm2Sealer_Unseal_Inr:
  assumes "tpm_present u = Some dev"
    and "unmarshal blob = Some \<lparr>sb_V = 1, sb_Label = label, sb_Priv = privBlob, sb_Pub = pubBlob\<rparr>"
    and "tpm2_CreatePrimary dev ownerAuth = Inr parent"
    and "tpm2_Load dev parent pubBlob privBlob = Inr h"
    and "tpm2_Unseal dev h (pubBlob, privBlob) = Inr secret"
  shows "\<exists>u'. tpm2Sealer_Unseal unmarshal ownerAuth label blob u = (Inr secret, u') \<and>
              tpm_present u' = Some dev"
  using assms
  by (simp add: tpm2Sealer_Unseal_def openTPM_def createPrimaryStorageKey_def tpm_log_def Let_def)

text \<open>The sealer of the repository gives back what it sealed, on a device that does.\<close>

lemma tpm2Sealer_roundtrip:
  assumes blob: "blob_faithful marshal unmarshal"
    and label: "json_string label = label"
    and dev: "tpm_unseals dev ownerAuth"
    and seal: "tpm2Sealer_Seal marshal ownerAuth label secret t = (Inr sealed, t')"
    and t: "tpm_present t = Some dev"
    and u: "tpm_present u = Some dev"
  shows "tpm_present t' = Some dev \<and>
         (\<exists>u'. tpm2Sealer_Unseal unmarshal ownerAuth label sealed u = (Inr secret, u') \<and>
               tpm_present u' = Some dev)"
  using seal
proof (rule tpm2Sealer_Seal_Inr)
  fix dev' parent privBlob pubBlob
  assume d': "tpm_present t = Some dev'"
    and cp: "tpm2_CreatePrimary dev' ownerAuth = Inr parent"
    and ck: "tpm2_CreateKeyWithSensitive dev' parent ownerAuth secret = Inr (privBlob, pubBlob)"
    and m: "marshal \<lparr>sb_V = 1, sb_Label = label, sb_Priv = privBlob, sb_Pub = pubBlob\<rparr> = Some sealed"
    and p: "tpm_present t' = tpm_present t"
  from d' t have eq: "dev' = dev" by simp
  from dev cp ck obtain h where ld: "tpm2_Load dev parent pubBlob privBlob = Inr h"
    and us: "tpm2_Unseal dev h (pubBlob, privBlob) = Inr secret"
    unfolding tpm_unseals_def eq by blast
  have um: "unmarshal sealed = Some \<lparr>sb_V = 1, sb_Label = label, sb_Priv = privBlob, sb_Pub = pubBlob\<rparr>"
    using blob m label by (simp add: blob_faithful_def blob_read_back_def)
  have cp': "tpm2_CreatePrimary dev ownerAuth = Inr parent" using cp eq by simp
  have "\<exists>u'. tpm2Sealer_Unseal unmarshal ownerAuth label sealed u = (Inr secret, u') \<and>
             tpm_present u' = Some dev"
    by (rule tpm2Sealer_Unseal_Inr [where unmarshal = unmarshal and blob = sealed, OF u um cp' ld us])
  with p t show ?thesis by simp
qed

text \<open>A load of the file a write left, under the laws of the libraries.\<close>

lemma load_written:
  assumes lib: "lib_faithful L"
    and label: "json_string (rt_pqLabel r) = rt_pqLabel r"
    and fl: "files w (rt_pqPath r) = Some out"
    and readable: "fs_fault w (FsReadFile (rt_pqPath r)) = None"
    and len: "length dek = 32" "length nonce = 24"
    and pay: "json_Marshal_payload L \<lparr>pay_Pub = kp_Pub kp, pay_Priv = kp_Priv kp\<rparr> = Some payloadBytes"
    and env: "json_MarshalIndent_envelope L
           \<lparr>env_V = 1, env_SealedDEK_B64 = base64_EncodeToString L sealed,
            env_NonceB64 = base64_EncodeToString L nonce,
            env_CTB64 = base64_EncodeToString L (aead_Seal L dek nonce payloadBytes (aad L r)),
            env_Label = rt_pqLabel r\<rparr> = Some out"
    and unseal: "Unseal (rt_sealer r) (rt_pqLabel r) sealed (w_tpm w) = (Inr dek, u)"
    and nonempty: "kp_Pub kp \<noteq> []" "kp_Priv kp \<noteq> []"
  shows "loadPQKeypair L r w = (Returns (Inr kp), w\<lparr>w_tpm := u\<rparr>)"
proof -
  have rd: "os_ReadFile w (rt_pqPath r) = ReadOk out"
    using fl readable by (simp add: os_ReadFile_def)
  have b64s: "\<And>x. json_string (base64_EncodeToString L x) = base64_EncodeToString L x"
    using lib by (simp add: lib_faithful_def json_string_def json_string_ascii)
  have un: "json_Unmarshal_envelope L out =
      Some \<lparr>env_V = 1, env_SealedDEK_B64 = base64_EncodeToString L sealed,
            env_NonceB64 = base64_EncodeToString L nonce,
            env_CTB64 = base64_EncodeToString L (aead_Seal L dek nonce payloadBytes (aad L r)),
            env_Label = rt_pqLabel r\<rparr>"
    using lib env by (simp add: lib_faithful_def envelope_read_back_def b64s label)
  have b64: "\<And>x. base64_DecodeString L (base64_EncodeToString L x) = Some x"
    using lib by (simp add: lib_faithful_def)
  have op: "xchacha_Open L dek nonce (aead_Seal L dek nonce payloadBytes (aad L r)) (aad L r) =
              Returns (Some payloadBytes)"
    using lib len by (simp add: lib_faithful_def xchacha_Open_def)
  have pu: "json_Unmarshal_payload L payloadBytes = Some \<lparr>pay_Pub = kp_Pub kp, pay_Priv = kp_Priv kp\<rparr>"
    using lib pay by (simp add: lib_faithful_def)
  show ?thesis
    using nonempty len
    by (simp add: loadPQKeypair_def rd un b64 with_tpm_def unseal chacha20poly1305_NewX_def op pu)
qed

text \<open>A label that does not come back from JSON as it is: the load of the file a write
  left stops at the label test.\<close>

lemma load_written_label_changed:
  assumes lib: "lib_faithful L"
    and label: "json_string (rt_pqLabel r) \<noteq> rt_pqLabel r"
    and wr: "writeEncryptedPQKeypair L r kp w = (Returns None, w')"
    and readable: "fs_fault w' (FsReadFile (rt_pqPath r)) = None"
  shows "loadPQKeypair L r w' = (Returns (Inl ErrCorruptOrTampered), w')"
  using wr
proof (rule write_success)
  fix dek sealed t' payloadBytes nonce out
  assume env: "json_MarshalIndent_envelope L
           \<lparr>env_V = 1, env_SealedDEK_B64 = base64_EncodeToString L sealed,
            env_NonceB64 = base64_EncodeToString L nonce,
            env_CTB64 = base64_EncodeToString L (aead_Seal L dek nonce payloadBytes (aad L r)),
            env_Label = rt_pqLabel r\<rparr> = Some out"
    and f: "files w' (rt_pqPath r) = Some out"
  have rd: "os_ReadFile w' (rt_pqPath r) = ReadOk out"
    using f readable by (simp add: os_ReadFile_def)
  from lib env obtain e where un: "json_Unmarshal_envelope L out = Some e"
    and v: "env_V e = 1" and l: "env_Label e = json_string (rt_pqLabel r)"
    by (simp add: lib_faithful_def envelope_read_back_def)
  have ne: "json_string (rt_pqLabel r) \<noteq> []"
    using label json_string_Nil_iff [of "rt_pqLabel r"] by auto
  show ?thesis
    using label ne by (simp add: loadPQKeypair_def rd un v l)
qed

subsection \<open>The second instance satisfies what is assumed\<close>

lemma byte_nibbles:
  fixes b :: byte
  shows "0 \<le> uint b div 16" "uint b div 16 < 16" "0 \<le> uint b mod 16" "uint b mod 16 < 16"
    "(word_of_int (uint b div 16 * 16 + uint b mod 16) :: byte) = b"
proof -
  have "uint b < 256" using uint_bounded [of b] by simp
  then show "uint b div 16 < 16" by simp
  show "0 \<le> uint b div 16" using uint_ge_0 [of b] by (simp add: div_int_pos_iff)
  show "0 \<le> uint b mod 16" "uint b mod 16 < 16" by simp_all
  show "(word_of_int (uint b div 16 * 16 + uint b mod 16) :: byte) = b" by simp
qed

lemma of_char_letter:
  assumes "0 \<le> n" and "n < 16"
  shows "(of_char (char_of (97 + n :: int)) :: int) = 97 + n"
proof -
  have "(97 + n) mod 256 = 97 + n" using assms by simp
  then show ?thesis by (simp add: of_char_of)
qed

lemma hex_val_digit: "0 \<le> n \<Longrightarrow> n < 16 \<Longrightarrow> hex_val (char_of (97 + n)) = Some n"
  by (simp add: hex_val_def of_char_letter)

lemma hex_roundtrip: "hex_DecodeString (hex_EncodeToString x) = Some x"
proof (induction x)
  case Nil
  show ?case by (simp add: hex_EncodeToString_def)
next
  case (Cons b x)
  then show ?case
    by (simp add: hex_EncodeToString_def hex_byte_def hex_val_digit byte_nibbles)
qed

lemma hex_byte_ascii: "list_all (\<lambda>c. (of_char c :: int) < 0x80) (hex_byte b)"
proof -
  have 1: "(of_char (char_of (97 + uint b div 16)) :: int) = 97 + uint b div 16"
    by (rule of_char_letter) (rule byte_nibbles)+
  have 2: "(of_char (char_of (97 + uint b mod 16)) :: int) = 97 + uint b mod 16"
    by (rule of_char_letter) (rule byte_nibbles)+
  have "97 + uint b div 16 < 128" "97 + uint b mod 16 < 128"
    using byte_nibbles(2,4) [of b] by simp_all
  then show ?thesis unfolding hex_byte_def by (simp only: list.pred_inject 1 2 simp_thms)
qed

lemma hex_ascii: "list_all (\<lambda>c. (of_char c :: int) < 0x80) (hex_EncodeToString x)"
  by (induction x) (simp_all add: hex_EncodeToString_def hex_byte_ascii)

lemma demo_envelope_roundtrip:
  "demo_marshal_envelope env = Some b \<Longrightarrow> demo_unmarshal_envelope b = Some env"
  using demo_lib_roundtrip by (simp add: lib_roundtrip_def demo_lib_def)

lemma sample_lib_faithful: "lib_faithful sample_lib"
  unfolding lib_faithful_def sample_lib_def
  using demo_lib_roundtrip
  by (simp add: lib_roundtrip_def demo_lib_def hex_roundtrip hex_ascii demo_envelope_roundtrip)

lemma sample_blob_faithful: "blob_faithful sample_marshal_blob demo_unmarshal_blob"
  unfolding blob_faithful_def sample_marshal_blob_def
  by (auto simp: demo_marshal_blob_def demo_unmarshal_blob_def unesc_esc
        unesc_esc [where r = "[]", simplified] char_byte_comp uint_word_of_int_byte
      split: if_splits)

lemma demo_conn_unseals: "tpm_unseals demo_conn ownerAuth"
  by (auto simp: tpm_unseals_def demo_conn_def)

text \<open>On the example state the first \<^verbatim>\<open>EnsurePQKeypair\<close> succeeds, for every label.\<close>

lemma sample_Ensure_succeeds:
  assumes "r = sample_rt\<lparr>rt_pqLabel := l\<rparr>"
  shows "fst (EnsurePQKeypair sample_lib (Some r) demo_world) = Returns None"
  unfolding assms
  by (simp add: EnsurePQKeypair_def os_Stat_def os_MkdirAll_def demo_world_def sample_rt_def
        demo_scheme_def writeEncryptedPQKeypair_def rand_Read_def with_tpm_def NewSealer_def
        tpm2Sealer_Seal_def openTPM_def createPrimaryStorageKey_def tpm_log_def demo_conn_def
        sample_marshal_blob_def demo_marshal_blob_def blob_read_back_def sample_lib_def
        demo_marshal_payload_def chacha20poly1305_NewX_def xchacha_Seal_def
        demo_marshal_envelope_def envelope_read_back_def atomicWriteFile_def os_Remove_def
        os_WriteFile_def os_Rename_def Let_def)


lemma write_keeps_faults:
  assumes "writeEncryptedPQKeypair L r kp w = (Returns None, w')"
  shows "fs_fault w' = fs_fault w"
  using assms by (rule write_success)

lemma sample_Ensure_readable:
  assumes "rt_scheme r = demo_scheme"
    and "fst (EnsurePQKeypair sample_lib (Some r) demo_world) = Returns None"
  shows "writeEncryptedPQKeypair sample_lib r \<lparr>kp_Pub = [1, 2, 3], kp_Priv = [4, 5, 6, 7]\<rparr> demo_world =
           (Returns None, snd (EnsurePQKeypair sample_lib (Some r) demo_world))"
    and "fs_fault (snd (EnsurePQKeypair sample_lib (Some r) demo_world)) (FsReadFile p) = None"
proof -
  let ?kp = "\<lparr>kp_Pub = [1, 2, 3], kp_Priv = [4, 5, 6, 7]\<rparr>"
  have e: "EnsurePQKeypair sample_lib (Some r) demo_world =
             writeEncryptedPQKeypair sample_lib r ?kp demo_world"
    using assms(1)
    by (simp add: EnsurePQKeypair_def os_Stat_def os_MkdirAll_def demo_world_def demo_scheme_def)
  show wr: "writeEncryptedPQKeypair sample_lib r ?kp demo_world =
              (Returns None, snd (EnsurePQKeypair sample_lib (Some r) demo_world))"
    using assms(2) by (simp add: e prod_eq_iff)
  show "fs_fault (snd (EnsurePQKeypair sample_lib (Some r) demo_world)) (FsReadFile p) = None"
    using write_keeps_faults [OF wr] by (simp add: demo_world_def)
qed

subsection \<open>The claims\<close>

text \<open>
  C3, as the code has it. Every error \<^verbatim>\<open>loadPQKeypair\<close> returns is determined by how
  far the chain got: a missing or unreadable file and an envelope that does not parse have
  their own errors, a version other than 1 has the error "unsupported pq envelope version"
  carrying the version, and every error after the version check (label, the three base64
  fields, unseal, the length of the DEK, AEAD open, the payload, empty pub or priv) is
  \<^verbatim>\<open>ErrCorruptOrTampered\<close>.
\<close>

theorem loadPQKeypair_errors:
  assumes "loadPQKeypair L r w = (Returns (Inl e), w')"
  shows "(case os_ReadFile w (rt_pqPath r) of
            ReadNotExist \<Rightarrow> e = ErrMissingPQKeyFile
          | ReadError x \<Rightarrow> e = ReadPQKeyFile x
          | ReadOk b \<Rightarrow>
              (case json_Unmarshal_envelope L b of
                 None \<Rightarrow> e = UnmarshalEnvelope
               | Some env \<Rightarrow>
                   if env_V env \<noteq> 1 then e = UnsupportedEnvelopeVersion (env_V env)
                   else e = ErrCorruptOrTampered))"
  using assms
  by (auto simp: loadPQKeypair_def chacha20poly1305_NewX_def
           split: read_result.splits option.splits if_splits prod.splits sum.splits run.splits)

theorem loadPQKeypair_errors_witness:
  "loadPQKeypair demo_lib demo_rt demo_world_label = (Returns (Inl ErrCorruptOrTampered), demo_world_label) \<and>
   (case os_ReadFile demo_world_label (rt_pqPath demo_rt) of
            ReadNotExist \<Rightarrow> ErrCorruptOrTampered = ErrMissingPQKeyFile
          | ReadError x \<Rightarrow> ErrCorruptOrTampered = ReadPQKeyFile x
          | ReadOk b \<Rightarrow>
              (case json_Unmarshal_envelope demo_lib b of
                 None \<Rightarrow> ErrCorruptOrTampered = UnmarshalEnvelope
               | Some env \<Rightarrow>
                   if env_V env \<noteq> 1 then ErrCorruptOrTampered = UnsupportedEnvelopeVersion (env_V env)
                   else ErrCorruptOrTampered = ErrCorruptOrTampered))"
proof -
  have e: "loadPQKeypair demo_lib demo_rt demo_world_label =
             (Returns (Inl ErrCorruptOrTampered), demo_world_label)"
    by (simp add: loadPQKeypair_def os_ReadFile_def demo_world_label_def demo_world_def
          demo_rt_def demo_lib_def demo_marshal_envelope_def demo_unmarshal_envelope_def)
  from loadPQKeypair_errors [OF e] e show ?thesis by (rule conjI [rotated])
qed

text \<open>
  The claim as the specification states it fails at the version check: a key file whose
  envelope has version 2 makes the load return the version error, not
  \<^verbatim>\<open>ErrCorruptOrTampered\<close>.
\<close>

theorem loadPQKeypair_version_counterexample:
  "fst (loadPQKeypair demo_lib demo_rt demo_world_v2) = Returns (Inl (UnsupportedEnvelopeVersion 2)) \<and>
   fst (loadPQKeypair demo_lib demo_rt demo_world_v2) \<noteq> Returns (Inl ErrCorruptOrTampered)"
  by (simp add: loadPQKeypair_def os_ReadFile_def demo_world_v2_def demo_world_def
        demo_rt_def demo_lib_def demo_marshal_envelope_def demo_unmarshal_envelope_def)

text \<open>
  C9 (an existing key file is never rewritten). In a state where \<^verbatim>\<open>os.Stat\<close> reports
  the key file (the code's test for "the file exists"), \<^verbatim>\<open>EnsurePQKeypair\<close> returns
  nil and the state is the one it started from: no file is written, removed or renamed,
  no key is generated and the device is not touched.
\<close>

theorem EnsurePQKeypair_existing_file:
  assumes "os_Stat w (rt_pqPath r) = StatOk"
  shows "EnsurePQKeypair L (Some r) w = (Returns None, w)"
  using assms by (simp add: EnsurePQKeypair_def)

theorem EnsurePQKeypair_existing_file_witness:
  "os_Stat demo_world_existing (rt_pqPath demo_rt) = StatOk \<and>
   EnsurePQKeypair demo_lib (Some demo_rt) demo_world_existing = (Returns None, demo_world_existing)"
proof -
  have s: "os_Stat demo_world_existing (rt_pqPath demo_rt) = StatOk"
    by (simp add: os_Stat_def demo_world_existing_def demo_world_def demo_rt_def)
  from s EnsurePQKeypair_existing_file [OF s] show ?thesis by (rule conjI)
qed

text \<open>When \<^verbatim>\<open>os.Stat\<close> fails for another reason than a missing file, the error is
  returned and the state is unchanged as well.\<close>

lemma EnsurePQKeypair_stat_error:
  assumes "os_Stat w (rt_pqPath r) = StatError e"
  shows "EnsurePQKeypair L (Some r) w = (Returns (Some (StatPQKeyFile e)), w)"
  using assms by (simp add: EnsurePQKeypair_def)

text \<open>
  C5 (write, then load), as far as it holds. Let the sealer be the one \<^verbatim>\<open>NewSealer\<close>
  returns, and let the label be valid UTF-8. Assume of the libraries what they do (what is
  unmarshalled is what was marshalled, with strings as JSON reads them back; base64 and
  the AEAD invert) and of the device that it gives back the secret of a sealed object it
  made. Let the key file be missing, let \<^verbatim>\<open>EnsurePQKeypair\<close> return nil with the device
  there, and let the key file be readable afterwards. Then every load, however many follow
  one another, returns the marshalled public and private key that were generated (which
  are not empty).
\<close>

theorem pq_envelope_roundtrip:
  assumes lib: "lib_faithful L"
    and blob: "blob_faithful marshal unmarshal"
    and sealer: "rt_sealer r = NewSealer marshal unmarshal ownerAuth"
    and label: "utf8_ValidString (rt_pqLabel r)"
    and missing: "os_Stat w (rt_pqPath r) = StatNotExist"
    and gen: "GenerateKey (rt_scheme r) (snd (os_MkdirAll (filepath_Dir L (rt_pqPath r)) w)) = (Inr (pk, sk), w2)"
    and dev: "tpm_present (w_tpm w2) = Some dev" "tpm_unseals dev ownerAuth"
    and pub: "MarshalBinary pk = Inr pub" "pub \<noteq> []"
    and priv: "MarshalBinary sk = Inr priv" "priv \<noteq> []"
    and ens: "EnsurePQKeypair L (Some r) w = (Returns None, w')"
    and readable: "fs_fault w' (FsReadFile (rt_pqPath r)) = None"
  shows "loads L r n w' = replicate n (Returns (Inr \<lparr>kp_Pub = pub, kp_Priv = priv\<rparr>))"
proof -
  let ?kp = "\<lparr>kp_Pub = pub, kp_Priv = priv\<rparr>"
  let ?l = "rt_pqLabel r"
  have lb: "json_string ?l = ?l" by (rule json_string_valid [OF label])
  have S: "Seal (rt_sealer r) = tpm2Sealer_Seal marshal ownerAuth"
    and U: "Unseal (rt_sealer r) = tpm2Sealer_Unseal unmarshal ownerAuth"
    by (simp_all add: sealer NewSealer_def)
  have mk: "os_MkdirAll (filepath_Dir L (rt_pqPath r)) w = (None, w)"
    using ens missing
    by (cases "fs_fault w (FsMkdirAll (filepath_Dir L (rt_pqPath r)))")
       (simp_all add: EnsurePQKeypair_def os_MkdirAll_def)
  have gen': "GenerateKey (rt_scheme r) w = (Inr (pk, sk), w2)"
    using gen mk by simp
  have wr: "writeEncryptedPQKeypair L r ?kp w2 = (Returns None, w')"
    using ens missing mk gen' pub priv by (simp add: EnsurePQKeypair_def)
  from wr show ?thesis
  proof (rule write_success)
    fix dek sealed t' payloadBytes nonce out
    assume len: "length dek = 32" and lenn: "length nonce = 24"
      and s: "Seal (rt_sealer r) ?l dek (w_tpm w2) = (Inr sealed, t')"
      and pay: "json_Marshal_payload L \<lparr>pay_Pub = kp_Pub ?kp, pay_Priv = kp_Priv ?kp\<rparr> = Some payloadBytes"
      and env: "json_MarshalIndent_envelope L
           \<lparr>env_V = 1, env_SealedDEK_B64 = base64_EncodeToString L sealed,
            env_NonceB64 = base64_EncodeToString L nonce,
            env_CTB64 = base64_EncodeToString L (aead_Seal L dek nonce payloadBytes (aad L r)),
            env_Label = ?l\<rparr> = Some out"
      and f: "files w' (rt_pqPath r) = Some out" and ff: "fs_fault w' = fs_fault w2"
      and tt: "w_tpm w' = t'"
    have s': "tpm2Sealer_Seal marshal ownerAuth ?l dek (w_tpm w2) = (Inr sealed, t')"
      using s by (simp add: S)
    have rt: "tpm_present t' = Some dev \<and>
              (\<exists>u'. tpm2Sealer_Unseal unmarshal ownerAuth ?l sealed u = (Inr dek, u') \<and>
                    tpm_present u' = Some dev)"
      if "tpm_present u = Some dev" for u
      by (rule tpm2Sealer_roundtrip [OF blob lb dev(2) s' dev(1) that])
    have d': "tpm_present (w_tpm w') = Some dev" using rt [OF dev(1)] tt by simp
    have step: "loads L r n v = replicate n (Returns (Inr ?kp))"
      if "files v (rt_pqPath r) = Some out" and "fs_fault v (FsReadFile (rt_pqPath r)) = None"
        and "tpm_present (w_tpm v) = Some dev" for v
      using that
    proof (induction n arbitrary: v)
      case 0
      show ?case by simp
    next
      case (Suc n)
      from rt [OF Suc.prems(3)] obtain u' where
        u: "Unseal (rt_sealer r) ?l sealed (w_tpm v) = (Inr dek, u')"
        and du: "tpm_present u' = Some dev"
        unfolding U by blast
      have ne: "kp_Pub ?kp \<noteq> []" "kp_Priv ?kp \<noteq> []" using pub(2) priv(2) by simp_all
      have ld: "loadPQKeypair L r v = (Returns (Inr ?kp), v\<lparr>w_tpm := u'\<rparr>)"
        by (rule load_written [OF lib lb Suc.prems(1) Suc.prems(2) len lenn pay env u ne])
      have "loads L r n (v\<lparr>w_tpm := u'\<rparr>) = replicate n (Returns (Inr ?kp))"
      proof (rule Suc.IH)
        show "files (v\<lparr>w_tpm := u'\<rparr>) (rt_pqPath r) = Some out" using Suc.prems(1) by simp
        show "fs_fault (v\<lparr>w_tpm := u'\<rparr>) (FsReadFile (rt_pqPath r)) = None" using Suc.prems(2) by simp
        show "tpm_present (w_tpm (v\<lparr>w_tpm := u'\<rparr>)) = Some dev" using du by simp
      qed
      with ld show ?case by simp
    qed
    from step [OF f readable d'] show ?thesis .
  qed
qed

theorem pq_envelope_roundtrip_witness:
  "loads sample_lib sample_rt 2 (snd (EnsurePQKeypair sample_lib (Some sample_rt) demo_world)) =
     replicate 2 (Returns (Inr \<lparr>kp_Pub = [1, 2, 3], kp_Priv = [4, 5, 6, 7]\<rparr>))"
proof (rule pq_envelope_roundtrip [where w = demo_world and ?w2.0 = demo_world
        and marshal = sample_marshal_blob and unmarshal = demo_unmarshal_blob
        and ownerAuth = "''''" and dev = demo_conn
        and pk = "\<lparr>MarshalBinary = Inr [1, 2, 3]\<rparr>"
        and sk = "\<lparr>MarshalBinary = Inr [4, 5, 6, 7]\<rparr>"])
  show "lib_faithful sample_lib" by (rule sample_lib_faithful)
  show "blob_faithful sample_marshal_blob demo_unmarshal_blob" by (rule sample_blob_faithful)
  show "rt_sealer sample_rt = NewSealer sample_marshal_blob demo_unmarshal_blob ''''"
    by (simp add: sample_rt_def)
  show "utf8_ValidString (rt_pqLabel sample_rt)" by code_simp
  show "os_Stat demo_world (rt_pqPath sample_rt) = StatNotExist"
    by (simp add: os_Stat_def demo_world_def)
  show "GenerateKey (rt_scheme sample_rt)
          (snd (os_MkdirAll (filepath_Dir sample_lib (rt_pqPath sample_rt)) demo_world)) =
        (Inr (\<lparr>MarshalBinary = Inr [1, 2, 3]\<rparr>, \<lparr>MarshalBinary = Inr [4, 5, 6, 7]\<rparr>), demo_world)"
    by (simp add: sample_rt_def demo_scheme_def os_MkdirAll_def)
  show "tpm_present (w_tpm demo_world) = Some demo_conn" by (simp add: demo_world_def)
  show "tpm_unseals demo_conn ''''" by (rule demo_conn_unseals)
  show "MarshalBinary \<lparr>MarshalBinary = Inr [1, 2, 3]\<rparr> = Inr [1, 2, 3]" by simp
  show "[1, 2, 3] \<noteq> ([] :: byte list)" by simp
  show "MarshalBinary \<lparr>MarshalBinary = Inr [4, 5, 6, 7]\<rparr> = Inr [4, 5, 6, 7]" by simp
  show "[4, 5, 6, 7] \<noteq> ([] :: byte list)" by simp
  have ens: "fst (EnsurePQKeypair sample_lib (Some sample_rt) demo_world) = Returns None"
    by (rule sample_Ensure_succeeds) (simp add: sample_rt_def)
  then show "EnsurePQKeypair sample_lib (Some sample_rt) demo_world =
               (Returns None, snd (EnsurePQKeypair sample_lib (Some sample_rt) demo_world))"
    by (simp add: prod_eq_iff)
  have "rt_scheme sample_rt = demo_scheme" by (simp add: sample_rt_def)
  from sample_Ensure_readable(2) [OF this ens]
  show "fs_fault (snd (EnsurePQKeypair sample_lib (Some sample_rt) demo_world))
          (FsReadFile (rt_pqPath sample_rt)) = None" .
qed

text \<open>
  The claim as the specification states it, for every label, fails for a label that is
  not valid UTF-8: \<^verbatim>\<open>encoding/json\<close> writes the byte \<^verbatim>\<open>0xFF\<close> as U+FFFD, so the
  envelope that is read back carries another label than the runtime has, and the load of
  the file just written returns \<^verbatim>\<open>ErrCorruptOrTampered\<close>. The configuration only
  requires the label not to be empty.
\<close>

theorem pq_envelope_invalid_label:
  "rt_pqLabel sample_rt_ff = [CHR 0xFF] \<and>
   fst (EnsurePQKeypair sample_lib (Some sample_rt_ff) demo_world) = Returns None \<and>
   fst (loadPQKeypair sample_lib sample_rt_ff
          (snd (EnsurePQKeypair sample_lib (Some sample_rt_ff) demo_world))) =
     Returns (Inl ErrCorruptOrTampered)"
proof -
  let ?w' = "snd (EnsurePQKeypair sample_lib (Some sample_rt_ff) demo_world)"
  have 1: "rt_pqLabel sample_rt_ff = [CHR 0xFF]" by (simp add: sample_rt_ff_def)
  have 2: "fst (EnsurePQKeypair sample_lib (Some sample_rt_ff) demo_world) = Returns None"
    by (rule sample_Ensure_succeeds) (simp add: sample_rt_ff_def sample_rt_def)
  have s: "rt_scheme sample_rt_ff = demo_scheme" by (simp add: sample_rt_ff_def sample_rt_def)
  have l: "json_string (rt_pqLabel sample_rt_ff) \<noteq> rt_pqLabel sample_rt_ff" by code_simp
  have 3: "loadPQKeypair sample_lib sample_rt_ff ?w' = (Returns (Inl ErrCorruptOrTampered), ?w')"
    by (rule load_written_label_changed
          [OF sample_lib_faithful l sample_Ensure_readable(1) [OF s 2] sample_Ensure_readable(2) [OF s 2]])
  from 1 2 3 show ?thesis by simp
qed

text \<open>
  C6 (the key file is bound to its path). Assume of the libraries that decoding inverts
  encoding and that a sealed text opens only under the associated data it was sealed
  with. If a write for the path of \<open>r\<close> succeeded and the file it left is found, intact,
  at another path \<open>p2\<close> whose absolute form differs, then a load by a runtime configured
  with \<open>p2\<close> (same label, same sealer) returns \<^verbatim>\<open>ErrCorruptOrTampered\<close>, whatever the
  sealer answers.
\<close>

lemma aad_differs:
  assumes "aad_path L p2 \<noteq> aad_path L (rt_pqPath r)"
  shows "aad L (r\<lparr>rt_pqPath := p2\<rparr>) \<noteq> aad L r"
proof
  assume "aad L (r\<lparr>rt_pqPath := p2\<rparr>) = aad L r"
  then have "''quantumauth:cryptoctx:pq:v1|'' @ rt_pqLabel r @ ''|'' @ aad_path L p2 =
             ''quantumauth:cryptoctx:pq:v1|'' @ rt_pqLabel r @ ''|'' @ aad_path L (rt_pqPath r)"
    unfolding aad_def by (intro bytes_of_string_inj) simp
  with assms show False by simp
qed

theorem moved_envelope_rejected:
  assumes lib: "lib_roundtrip L" and bind: "aead_binding L"
    and wr: "writeEncryptedPQKeypair L r kp w = (Returns None, w')"
    and moved: "files v p2 = files w' (rt_pqPath r)"
    and readable: "fs_fault v (FsReadFile p2) = None"
    and differ: "aad_path L p2 \<noteq> aad_path L (rt_pqPath r)"
  shows "fst (loadPQKeypair L (r\<lparr>rt_pqPath := p2\<rparr>) v) = Returns (Inl ErrCorruptOrTampered)"
  using wr
proof (rule write_success)
  fix dek sealed t' payloadBytes nonce out
  assume len: "length dek = 32" and lenn: "length nonce = 24"
    and env: "json_MarshalIndent_envelope L
           \<lparr>env_V = 1, env_SealedDEK_B64 = base64_EncodeToString L sealed,
            env_NonceB64 = base64_EncodeToString L nonce,
            env_CTB64 = base64_EncodeToString L (aead_Seal L dek nonce payloadBytes (aad L r)),
            env_Label = rt_pqLabel r\<rparr> = Some out"
    and f: "files w' (rt_pqPath r) = Some out"
  let ?r2 = "r\<lparr>rt_pqPath := p2\<rparr>"
  have rd: "os_ReadFile v p2 = ReadOk out"
    using f moved readable by (simp add: os_ReadFile_def)
  have un: "json_Unmarshal_envelope L out =
      Some \<lparr>env_V = 1, env_SealedDEK_B64 = base64_EncodeToString L sealed,
            env_NonceB64 = base64_EncodeToString L nonce,
            env_CTB64 = base64_EncodeToString L (aead_Seal L dek nonce payloadBytes (aad L r)),
            env_Label = rt_pqLabel r\<rparr>"
    using lib env by (simp add: lib_roundtrip_def)
  have b64: "\<And>x. base64_DecodeString L (base64_EncodeToString L x) = Some x"
    using lib by (simp add: lib_roundtrip_def)
  have "aead_Open L k nonce (aead_Seal L dek nonce payloadBytes (aad L r)) (aad L ?r2) = None" for k
  proof (cases "aead_Open L k nonce (aead_Seal L dek nonce payloadBytes (aad L r)) (aad L ?r2)")
    case None
    then show ?thesis .
  next
    case (Some p)
    with bind have "aad L ?r2 = aad L r" unfolding aead_binding_def by blast
    with aad_differs [OF differ] show ?thesis by simp
  qed
  then have op: "xchacha_Open L k nonce (aead_Seal L dek nonce payloadBytes (aad L r)) (aad L ?r2) =
                   Returns None" for k
    using lenn by (simp add: xchacha_Open_def)
  show ?thesis
    by (simp add: loadPQKeypair_def rd un b64 with_tpm_def chacha20poly1305_NewX_def op
             split: prod.splits sum.splits)
qed

theorem moved_envelope_rejected_witness:
  "fst (loadPQKeypair demo_lib (demo_rt\<lparr>rt_pqPath := ''/home/qa/pqkeys.json.enc''\<rparr>) demo_world_moved) =
     Returns (Inl ErrCorruptOrTampered)"
proof (rule moved_envelope_rejected [where w = demo_world and w' = demo_world_written
        and kp = "\<lparr>kp_Pub = [1, 2, 3], kp_Priv = [4, 5, 6, 7]\<rparr>"])
  show "lib_roundtrip demo_lib" by (rule demo_lib_roundtrip)
  show "aead_binding demo_lib" by (rule demo_lib_binding)
  have "fst (writeEncryptedPQKeypair demo_lib demo_rt \<lparr>kp_Pub = [1, 2, 3], kp_Priv = [4, 5, 6, 7]\<rparr> demo_world) =
          Returns None"
    by code_simp
  moreover have "demo_world_written =
      snd (writeEncryptedPQKeypair demo_lib demo_rt \<lparr>kp_Pub = [1, 2, 3], kp_Priv = [4, 5, 6, 7]\<rparr> demo_world)"
    by (simp add: demo_world_written_def EnsurePQKeypair_def os_Stat_def os_MkdirAll_def
          demo_world_def demo_rt_def demo_scheme_def)
  ultimately show "writeEncryptedPQKeypair demo_lib demo_rt \<lparr>kp_Pub = [1, 2, 3], kp_Priv = [4, 5, 6, 7]\<rparr> demo_world =
          (Returns None, demo_world_written)"
    by (simp add: prod_eq_iff)
  show "files demo_world_moved ''/home/qa/pqkeys.json.enc'' = files demo_world_written (rt_pqPath demo_rt)"
    by (simp add: demo_world_moved_def demo_rt_def)
  show "fs_fault demo_world_moved (FsReadFile ''/home/qa/pqkeys.json.enc'') = None"
    unfolding demo_world_moved_def demo_world_written_def by code_simp
  show "aad_path demo_lib ''/home/qa/pqkeys.json.enc'' \<noteq> aad_path demo_lib (rt_pqPath demo_rt)"
    by (simp add: aad_path_def demo_lib_def demo_rt_def)
qed

text \<open>
  The same holds under the law that has the strings as JSON reads them back: a label that
  does not come back as it is fails the label test, with the same error.
\<close>

lemma moved_file_rejected_json:
  assumes lib: "lib_faithful L" and bind: "aead_binding L"
    and wr: "writeEncryptedPQKeypair L r kp w = (Returns None, w')"
    and moved: "files v p2 = files w' (rt_pqPath r)"
    and readable: "fs_fault v (FsReadFile p2) = None"
    and differ: "aad_path L p2 \<noteq> aad_path L (rt_pqPath r)"
  shows "fst (loadPQKeypair L (r\<lparr>rt_pqPath := p2\<rparr>) v) = Returns (Inl ErrCorruptOrTampered)"
  using wr
proof (rule write_success)
  fix dek sealed t' payloadBytes nonce out
  assume len: "length dek = 32" and lenn: "length nonce = 24"
    and env: "json_MarshalIndent_envelope L
           \<lparr>env_V = 1, env_SealedDEK_B64 = base64_EncodeToString L sealed,
            env_NonceB64 = base64_EncodeToString L nonce,
            env_CTB64 = base64_EncodeToString L (aead_Seal L dek nonce payloadBytes (aad L r)),
            env_Label = rt_pqLabel r\<rparr> = Some out"
    and f: "files w' (rt_pqPath r) = Some out"
  let ?r2 = "r\<lparr>rt_pqPath := p2\<rparr>"
  have rd: "os_ReadFile v p2 = ReadOk out"
    using f moved readable by (simp add: os_ReadFile_def)
  have b64s: "\<And>x. json_string (base64_EncodeToString L x) = base64_EncodeToString L x"
    using lib by (simp add: lib_faithful_def json_string_def json_string_ascii)
  have un: "json_Unmarshal_envelope L out =
      Some \<lparr>env_V = 1, env_SealedDEK_B64 = base64_EncodeToString L sealed,
            env_NonceB64 = base64_EncodeToString L nonce,
            env_CTB64 = base64_EncodeToString L (aead_Seal L dek nonce payloadBytes (aad L r)),
            env_Label = json_string (rt_pqLabel r)\<rparr>"
    using lib env by (simp add: lib_faithful_def envelope_read_back_def b64s)
  have b64: "\<And>x. base64_DecodeString L (base64_EncodeToString L x) = Some x"
    using lib by (simp add: lib_faithful_def)
  have "aead_Open L k nonce (aead_Seal L dek nonce payloadBytes (aad L r)) (aad L ?r2) = None" for k
  proof (cases "aead_Open L k nonce (aead_Seal L dek nonce payloadBytes (aad L r)) (aad L ?r2)")
    case None
    then show ?thesis .
  next
    case (Some p)
    with bind have "aad L ?r2 = aad L r" unfolding aead_binding_def by blast
    with aad_differs [OF differ] show ?thesis by simp
  qed
  then have op: "xchacha_Open L k nonce (aead_Seal L dek nonce payloadBytes (aad L r)) (aad L ?r2) =
                   Returns None" for k
    using lenn by (simp add: xchacha_Open_def)
  show ?thesis
    by (simp add: loadPQKeypair_def rd un b64 with_tpm_def chacha20poly1305_NewX_def op
             split: prod.splits sum.splits)
qed


end
